theory Spec2Isabelle
  imports Complex_Main "HOL-Library.Word"
begin
section \<open>The snake engine of game.js\<close>

text \<open>
  The engine is the closure \<open>SnakeGame\<close> of game.js. Its module variables are the fields
  of the record \<open>engine\<close>, under their own names. What the engine does to its host is
  part of the same record: the interval timers that are live (\<open>setInterval\<close>,
  \<open>clearInterval\<close>), the log of what the engine called outside itself (the two
  callbacks, a render pass, \<open>preventDefault\<close> on a key event), whether the key
  listener is registered, and the results \<open>Math.random()\<close> will give, one after the
  other.

  The model is of an engine that \<open>init\<close> has bound to a canvas. \<open>render\<close> only draws:
  it reads the module variables and writes none of them, so a render is an entry of the
  log and nothing else. The two images and their \<open>onload\<close> handlers only choose how
  \<open>render\<close> draws, and are left out. The callbacks that app.js registers do not call
  the engine back. Coordinates, the score and the speed are JavaScript numbers that stay
  integers far below \<open>2^53\<close>: they are of type \<open>int\<close>.
\<close>

subsection \<open>Constants and data\<close>

definition gridSize :: int where "gridSize = 20"
definition cellSize :: int where "cellSize = 20"
definition initialSpeed :: int where "initialSpeed = 150"
definition speedIncrement :: int where "speedIncrement = 2"
definition minSpeed :: int where "minSpeed = 50"

datatype dir = UP | DOWN | LEFT | RIGHT

text \<open>\<open>DIRECTIONS\<close>: the unit step of each direction, as \<open>(x, y)\<close>.\<close>

fun delta :: "dir \<Rightarrow> int \<times> int" where
  "delta UP = (0, -1)"
| "delta DOWN = (0, 1)"
| "delta LEFT = (-1, 0)"
| "delta RIGHT = (1, 0)"

fun opposite :: "dir \<Rightarrow> dir" where
  "opposite UP = DOWN"
| "opposite DOWN = UP"
| "opposite LEFT = RIGHT"
| "opposite RIGHT = LEFT"

datatype gstate = IDLE | PLAYING | PAUSED | GAME_OVER

type_synonym cell = "int \<times> int"

datatype effect = Render | ScoreUpdate int | GameOverCall int | PreventDefault

datatype 'a outcome = Returns 'a | Throws | Diverges

text \<open>
  A call either returns, throws (a TypeError), or never returns. \<open>andThen\<close> runs the
  rest of a function body after a call that returned.
\<close>

fun andThen :: "'a outcome \<Rightarrow> ('a \<Rightarrow> 'b outcome) \<Rightarrow> 'b outcome" where
  "andThen (Returns x) f = f x"
| "andThen Throws f = Throws"
| "andThen Diverges f = Diverges"

subsection \<open>Numbers of \<open>Math.random()\<close>\<close>

text \<open>
  JavaScript numbers are binary64. A binary64 number that is not negative and below 1 is
  \<open>m / 2^e\<close> for natural numbers \<open>m < 2^53\<close> and \<open>e \<le> 1074\<close> with \<open>m < 2^e\<close>, and
  every such quotient is one: the pair \<open>(m, e)\<close> stands for it.

  \<open>times64 x k\<close> is the binary64 product of \<open>x\<close> and the integer \<open>k\<close>: the exact
  product \<open>m * k / 2^e\<close> rounded to 53 significant bits, to nearest and ties to even
  (the product of a number below 1 and \<open>gridSize\<close> neither overflows nor is rounded
  among the subnormal numbers). \<open>excessBits n\<close> is the number of bits of \<open>n\<close> beyond
  53, \<open>roundTiesToEven n s\<close> the integer nearest to \<open>n / 2^s\<close>. \<open>floor64\<close> is
  \<open>Math.floor\<close>.
\<close>

type_synonym binary64 = "nat \<times> nat"

fun excessBits :: "nat \<Rightarrow> nat" where
  "excessBits n = (if n < 2 ^ 53 then 0 else Suc (excessBits (n div 2)))"

definition roundTiesToEven :: "nat \<Rightarrow> nat \<Rightarrow> nat" where
  "roundTiesToEven n s =
     (let q = n div 2 ^ s; r = n mod 2 ^ s
      in if 2 * r < 2 ^ s then q
         else if 2 ^ s < 2 * r then q + 1
         else if even q then q else q + 1)"

definition times64 :: "binary64 \<Rightarrow> nat \<Rightarrow> binary64" where
  "times64 x k =
     (let n = fst x * k; s = excessBits n
      in (roundTiesToEven n s * 2 ^ s, snd x))"

definition floor64 :: "binary64 \<Rightarrow> int" where
  "floor64 x = int (fst x div 2 ^ snd x)"

subsection \<open>The state of the engine\<close>

record engine =
  snake :: "cell list"
  food :: "cell option"
  direction :: dir
  nextDirection :: dir
  score :: int
  gameState :: gstate
  gameLoop :: "nat option"
  speed :: int
  onScoreUpdate :: bool
  onGameOver :: bool
  timers :: "(nat \<times> int) list"
  nextTimer :: nat
  listening :: bool
  effects :: "effect list"
  random :: "nat \<Rightarrow> binary64"
  drawn :: nat

text \<open>
  \<open>onScoreUpdate\<close> and \<open>onGameOver\<close> say whether a callback is registered (the
  source holds the function or null); a call of one is an entry of \<open>effects\<close>.
  \<open>timers\<close> are the live interval timers of the host, each with its handle and its
  interval; \<open>gameLoop\<close> is the handle the engine keeps (handles are positive, so a
  handle is truthy). \<open>random i\<close> is the result of the \<open>i\<close>-th call of
  \<open>Math.random()\<close>, \<open>drawn\<close> the number of calls made so far.
\<close>

subsection \<open>Host operations\<close>

definition setInterval :: "int \<Rightarrow> engine \<Rightarrow> nat \<times> engine" where
  "setInterval ms s =
     (nextTimer s, s\<lparr>timers := timers s @ [(nextTimer s, ms)], nextTimer := Suc (nextTimer s)\<rparr>)"

definition clearInterval :: "nat option \<Rightarrow> engine \<Rightarrow> engine" where
  "clearInterval h s =
     (case h of None \<Rightarrow> s
      | Some k \<Rightarrow> s\<lparr>timers := filter (\<lambda>t. fst t \<noteq> k) (timers s)\<rparr>)"

definition render :: "engine \<Rightarrow> engine" where
  "render s = s\<lparr>effects := effects s @ [Render]\<rparr>"

definition preventDefault :: "engine \<Rightarrow> engine" where
  "preventDefault s = s\<lparr>effects := effects s @ [PreventDefault]\<rparr>"

subsection \<open>spawnFood\<close>

text \<open>The loops over the snake's segments, in \<open>spawnFood\<close> and in \<open>checkCollision\<close>.\<close>

fun onSnake :: "cell list \<Rightarrow> cell \<Rightarrow> bool" where
  "onSnake [] c = False"
| "onSnake (seg # segs) c = (if fst seg = fst c \<and> snd seg = snd c then True else onSnake segs c)"

text \<open>
  One candidate: \<open>Math.floor(Math.random() * gridSize)\<close> for \<open>x\<close>, then for \<open>y\<close>.
\<close>

definition candidate :: "(nat \<Rightarrow> binary64) \<Rightarrow> nat \<Rightarrow> cell" where
  "candidate r i =
     (floor64 (times64 (r i) (nat gridSize)), floor64 (times64 (r (Suc i)) (nat gridSize)))"

text \<open>
  The \<open>while (!valid)\<close> loop: it has no bound, so it is a partial function, and
  \<open>None\<close> is the loop that never ends.
\<close>

partial_function (option) spawnFood_loop ::
  "(nat \<Rightarrow> binary64) \<Rightarrow> cell list \<Rightarrow> nat \<Rightarrow> (cell \<times> nat) option" where
  "spawnFood_loop r segs i =
     (if onSnake segs (candidate r i) then spawnFood_loop r segs (i + 2)
      else Some (candidate r i, i + 2))"

definition spawnFood :: "engine \<Rightarrow> engine outcome" where
  "spawnFood s =
     (case spawnFood_loop (random s) (snake s) (drawn s) of
        None \<Rightarrow> Diverges
      | Some (newFood, n) \<Rightarrow> Returns (s\<lparr>food := Some newFood, drawn := n\<rparr>))"

subsection \<open>reset, start, togglePause\<close>

definition reset :: "engine \<Rightarrow> engine outcome" where
  "reset s =
     (let s1 = (case gameLoop s of
                  None \<Rightarrow> s
                | Some h \<Rightarrow> (clearInterval (Some h) s)\<lparr>gameLoop := None\<rparr>);
          startX = gridSize div 2;
          startY = gridSize div 2;
          s2 = s1\<lparr>snake := [(startX, startY), (startX - 1, startY), (startX - 2, startY)],
                  direction := RIGHT, nextDirection := RIGHT,
                  score := 0, speed := initialSpeed\<rparr>
      in andThen (spawnFood s2) (\<lambda>s3. Returns (render (s3\<lparr>gameState := IDLE\<rparr>))))"

definition startTimer :: "engine \<Rightarrow> engine" where
  "startTimer s = (case setInterval (speed s) s of (h, s') \<Rightarrow> s'\<lparr>gameLoop := Some h\<rparr>)"

definition start :: "engine \<Rightarrow> engine outcome" where
  "start s =
     (if gameState s = PLAYING then Returns s
      else andThen (if gameState s = GAME_OVER \<or> gameState s = IDLE then reset s else Returns s)
             (\<lambda>s1. Returns (startTimer (s1\<lparr>gameState := PLAYING\<rparr>))))"

definition togglePause :: "engine \<Rightarrow> engine" where
  "togglePause s =
     (if gameState s = PLAYING
      then (clearInterval (gameLoop s) (s\<lparr>gameState := PAUSED\<rparr>))\<lparr>gameLoop := None\<rparr>
      else if gameState s = PAUSED then startTimer (s\<lparr>gameState := PLAYING\<rparr>)
      else s)"

definition getState :: "engine \<Rightarrow> gstate" where
  "getState s = gameState s"

definition getScore :: "engine \<Rightarrow> int" where
  "getScore s = score s"

subsection \<open>handleKeyDown\<close>

text \<open>The \<open>switch\<close> on \<open>event.code\<close>: the direction the key asks for, if it is accepted.\<close>

definition keyDirection :: "string \<Rightarrow> dir \<Rightarrow> dir option" where
  "keyDirection code d =
     (if code = ''ArrowUp'' \<or> code = ''KeyW'' then (if d \<noteq> DOWN then Some UP else None)
      else if code = ''ArrowDown'' \<or> code = ''KeyS'' then (if d \<noteq> UP then Some DOWN else None)
      else if code = ''ArrowLeft'' \<or> code = ''KeyA'' then (if d \<noteq> RIGHT then Some LEFT else None)
      else if code = ''ArrowRight'' \<or> code = ''KeyD'' then (if d \<noteq> LEFT then Some RIGHT else None)
      else None)"

definition handleKeyDown :: "string \<Rightarrow> engine \<Rightarrow> engine outcome" where
  "handleKeyDown code s =
     (if code = ''Space'' then
        (let s1 = preventDefault s
         in if gameState s1 = IDLE \<or> gameState s1 = GAME_OVER then start s1
            else Returns (togglePause s1))
      else if gameState s \<noteq> PLAYING then Returns s
      else case keyDirection code (direction s) of
             None \<Rightarrow> Returns s
           | Some newDirection \<Rightarrow> Returns ((preventDefault s)\<lparr>nextDirection := newDirection\<rparr>))"

subsection \<open>update, checkCollision, endGame\<close>

definition checkCollision :: "cell \<Rightarrow> engine \<Rightarrow> bool" where
  "checkCollision head s =
     (if fst head < 0 \<or> fst head \<ge> gridSize \<or> snd head < 0 \<or> snd head \<ge> gridSize then True
      else onSnake (snake s) head)"

definition endGame :: "engine \<Rightarrow> engine" where
  "endGame s =
     (let s1 = (clearInterval (gameLoop s) (s\<lparr>gameState := GAME_OVER\<rparr>))\<lparr>gameLoop := None\<rparr>;
          s2 = (if onGameOver s1 then s1\<lparr>effects := effects s1 @ [GameOverCall (score s1)]\<rparr> else s1)
      in render s2)"

text \<open>
  \<open>snake[0]\<close> of an empty snake is undefined and \<open>food\<close> may be null: reading \<open>.x\<close>
  of either throws.
\<close>

definition update :: "engine \<Rightarrow> engine outcome" where
  "update s =
     (if gameState s \<noteq> PLAYING then Returns s
      else
        let s1 = s\<lparr>direction := nextDirection s\<rparr> in
        case snake s1 of
          [] \<Rightarrow> Throws
        | head # _ \<Rightarrow>
            let newHead = (fst head + fst (delta (direction s1)), snd head + snd (delta (direction s1))) in
            if checkCollision newHead s1 then Returns (endGame s1)
            else
              let s2 = s1\<lparr>snake := newHead # snake s1\<rparr> in
              case food s2 of
                None \<Rightarrow> Throws
              | Some f \<Rightarrow>
                  if fst newHead = fst f \<and> snd newHead = snd f then
                    let s3 = s2\<lparr>score := score s2 + 10\<rparr>;
                        s4 = (if onScoreUpdate s3
                              then s3\<lparr>effects := effects s3 @ [ScoreUpdate (score s3)]\<rparr> else s3);
                        s5 = (if speed s4 > minSpeed
                              then startTimer (clearInterval (gameLoop s4)
                                     (s4\<lparr>speed := speed s4 - speedIncrement\<rparr>))
                              else s4)
                    in andThen (spawnFood s5) (\<lambda>s6. Returns (render s6))
                  else Returns (render (s2\<lparr>snake := butlast (snake s2)\<rparr>)))"

subsection \<open>init, destroy\<close>

text \<open>The module variables as the script leaves them, before \<open>init\<close>.\<close>

definition engine0 :: "(nat \<Rightarrow> binary64) \<Rightarrow> engine" where
  "engine0 r =
     \<lparr>snake = [], food = None, direction = RIGHT, nextDirection = RIGHT, score = 0,
      gameState = IDLE, gameLoop = None, speed = initialSpeed,
      onScoreUpdate = False, onGameOver = False,
      timers = [], nextTimer = 1, listening = False, effects = [],
      random = r, drawn = 0\<rparr>"

definition init :: "bool \<Rightarrow> bool \<Rightarrow> engine \<Rightarrow> engine outcome" where
  "init scoreCb overCb s =
     andThen (reset (s\<lparr>onScoreUpdate := scoreCb, onGameOver := overCb\<rparr>))
       (\<lambda>s1. Returns (s1\<lparr>listening := True\<rparr>))"

definition destroy :: "engine \<Rightarrow> engine" where
  "destroy s =
     (let s1 = s\<lparr>listening := False\<rparr>
      in case gameLoop s1 of
           None \<Rightarrow> s1
         | Some h \<Rightarrow> (clearInterval (Some h) s1)\<lparr>gameLoop := None\<rparr>)"

subsection \<open>Runs of the engine\<close>

text \<open>
  What can happen to an engine: a call of its public API, a key event of the host
  (delivered while the listener is registered), or a tick (a live interval timer
  calling \<open>update\<close>).
\<close>

datatype action = Init bool bool | Reset | Start | TogglePause | Destroy | KeyDown string | Tick

fun step :: "action \<Rightarrow> engine \<Rightarrow> engine outcome" where
  "step (Init scoreCb overCb) s = init scoreCb overCb s"
| "step Reset s = reset s"
| "step Start s = start s"
| "step TogglePause s = Returns (togglePause s)"
| "step Destroy s = Returns (destroy s)"
| "step (KeyDown code) s = (if listening s then handleKeyDown code s else Returns s)"
| "step Tick s = (if timers s = [] then Returns s else update s)"

fun run :: "action list \<Rightarrow> engine \<Rightarrow> engine outcome" where
  "run [] s = Returns s"
| "run (a # as) s = andThen (step a s) (run as)"

text \<open>\<open>Math.random()\<close> returns a binary64 number from 0 up to, not including, 1.\<close>

definition unitSample :: "binary64 \<Rightarrow> bool" where
  "unitSample x = (fst x < 2 ^ 53 \<and> snd x \<le> 1074 \<and> fst x < 2 ^ snd x)"

definition unitSamples :: "(nat \<Rightarrow> binary64) \<Rightarrow> bool" where
  "unitSamples r = (\<forall>i. unitSample (r i))"

inductive reachable :: "engine \<Rightarrow> bool" where
  reachable_init: "unitSamples r \<Longrightarrow> init scoreCb overCb (engine0 r) = Returns s \<Longrightarrow> reachable s"
| reachable_step: "reachable s \<Longrightarrow> step a s = Returns s' \<Longrightarrow> reachable s'"

text \<open>The head a tick in state \<open>s\<close> would move to: the head plus the step of the pending
  direction, which the tick commits first.\<close>

definition newHeadOf :: "engine \<Rightarrow> cell option" where
  "newHeadOf s =
     (case snake s of
        [] \<Rightarrow> None
      | head # _ \<Rightarrow> Some (fst head + fst (delta (nextDirection s)),
                          snd head + snd (delta (nextDirection s))))"

text \<open>A tick in state \<open>s\<close> eats: the engine is playing, the new head collides with
  nothing and is where the food is.\<close>

definition eats :: "engine \<Rightarrow> bool" where
  "eats s =
     (gameState s = PLAYING \<and>
      (case newHeadOf s of
         None \<Rightarrow> False
       | Some h \<Rightarrow> \<not> checkCollision h s \<and> food s = Some h))"

text \<open>An action in state \<open>s\<close> runs \<open>reset()\<close>.\<close>

fun resets :: "action \<Rightarrow> engine \<Rightarrow> bool" where
  "resets (Init scoreCb overCb) s = True"
| "resets Reset s = True"
| "resets Start s = (gameState s = GAME_OVER \<or> gameState s = IDLE)"
| "resets (KeyDown code) s =
     (listening s \<and> code = ''Space'' \<and> (gameState s = IDLE \<or> gameState s = GAME_OVER))"
| "resets a s = False"

text \<open>The number of eating ticks of a run since its last reset, counted from \<open>n\<close>.\<close>

fun eaten :: "action list \<Rightarrow> engine \<Rightarrow> nat \<Rightarrow> nat" where
  "eaten [] s n = n"
| "eaten (a # as) s n =
     (case step a s of
        Returns s' \<Rightarrow>
          eaten as s' (if resets a s then 0
                       else if a = Tick \<and> timers s \<noteq> [] \<and> eats s then Suc n else n)
      | Throws \<Rightarrow> n
      | Diverges \<Rightarrow> n)"

definition inGrid :: "cell \<Rightarrow> bool" where
  "inGrid c = (0 \<le> fst c \<and> fst c < gridSize \<and> 0 \<le> snd c \<and> snd c < gridSize)"

definition foodFree :: "engine \<Rightarrow> bool" where
  "foodFree s = (case food s of None \<Rightarrow> False | Some f \<Rightarrow> inGrid f \<and> \<not> onSnake (snake s) f)"

text \<open>What every state of a run satisfies (lemma \<open>reachable_invariant\<close>).\<close>

definition invariant :: "engine \<Rightarrow> bool" where
  "invariant s =
     (snake s \<noteq> [] \<and> foodFree s \<and> unitSamples (random s) \<and>
      nextDirection s \<noteq> opposite (direction s) \<and>
      minSpeed \<le> speed s \<and> speed s \<le> initialSpeed \<and> even (speed s) \<and>
      timers s = (case gameLoop s of None \<Rightarrow> [] | Some h \<Rightarrow> [(h, speed s)]) \<and>
      (gameLoop s = None \<or> gameState s = PLAYING))"

text \<open>An eating tick up to the call of \<open>spawnFood\<close>: the head is on, the score and the
  speed are updated, the timer is restarted.\<close>

definition afterEating :: "cell \<Rightarrow> engine \<Rightarrow> engine" where
  "afterEating h s =
     (let s3 = s\<lparr>direction := nextDirection s, snake := h # snake s, score := score s + 10\<rparr>;
          s4 = (if onScoreUpdate s3 then s3\<lparr>effects := effects s3 @ [ScoreUpdate (score s3)]\<rparr> else s3)
      in if speed s4 > minSpeed
         then startTimer (clearInterval (gameLoop s4) (s4\<lparr>speed := speed s4 - speedIncrement\<rparr>))
         else s4)"

text \<open>A run in which no action runs \<open>reset()\<close>: one game.\<close>

fun resetFree :: "action list \<Rightarrow> engine \<Rightarrow> bool" where
  "resetFree [] s = True"
| "resetFree (a # as) s =
     (\<not> resets a s \<and>
      (case step a s of Returns s' \<Rightarrow> resetFree as s' | Throws \<Rightarrow> True | Diverges \<Rightarrow> True))"

section \<open>Login: auth.js over storage.js\<close>

text \<open>
  A JavaScript string is a sequence of UTF-16 code units; \<open>length\<close> counts them and
  \<open>charCodeAt\<close> reads one. \<open>ascii\<close> writes a string of ASCII characters as one.
\<close>

type_synonym jsstring = "nat list"

definition ascii :: "string \<Rightarrow> jsstring" where
  "ascii cs = map of_char cs"

text \<open>
  \<open>String.prototype.trim\<close> removes white space and line terminators from both ends:
  tab, line feed, vertical tab, form feed, carriage return, space, no-break space, the
  byte order mark, the line and paragraph separators and the space separators of Unicode.
\<close>

definition isWhiteSpace :: "nat \<Rightarrow> bool" where
  "isWhiteSpace c =
     (c \<in> set [9, 10, 11, 12, 13, 32, 160, 5760, 8192, 8193, 8194, 8195, 8196, 8197, 8198,
               8199, 8200, 8201, 8202, 8232, 8233, 8239, 8287, 12288, 65279])"

definition trim :: "jsstring \<Rightarrow> jsstring" where
  "trim s = rev (dropWhile isWhiteSpace (rev (dropWhile isWhiteSpace s)))"

subsection \<open>Values\<close>

text \<open>
  What \<open>JSON.parse\<close> can give: null, a boolean, a number, a string, an array, or an
  object with its own properties. A number is a binary64 value; one written too large
  for binary64 is read as Infinity, which \<open>JSON.stringify\<close> writes as null:
  \<open>reparse v\<close> is what is read back after \<open>v\<close> was written. The order of the
  properties of an object cannot be seen by the code modelled here.
\<close>

datatype json =
  JNull | JBool bool | JNumber real | JInfinity | JString jsstring | JArray "json list"
  | JObject "jsstring \<Rightarrow> json option"

primrec reparse :: "json \<Rightarrow> json" where
  "reparse JNull = JNull"
| "reparse (JBool b) = JBool b"
| "reparse (JNumber x) = JNumber x"
| "reparse JInfinity = JNull"
| "reparse (JString s) = JString s"
| "reparse (JArray vs) = JArray (map reparse vs)"
| "reparse (JObject f) = JObject (map_option reparse \<circ> f)"

text \<open>
  What reading a property can give: a value as above, a built-in function or object of
  the host (\<open>Native\<close>), or undefined.
\<close>

datatype jsvalue = Json json | Native | Undef

fun truthy :: "jsvalue \<Rightarrow> bool" where
  "truthy Undef = False"
| "truthy Native = True"
| "truthy (Json JNull) = False"
| "truthy (Json (JBool b)) = b"
| "truthy (Json (JNumber x)) = (x \<noteq> 0)"
| "truthy (Json JInfinity) = True"
| "truthy (Json (JString s)) = (s \<noteq> [])"
| "truthy (Json (JArray vs)) = True"
| "truthy (Json (JObject f)) = True"

text \<open>
  A call returns an answer or throws a TypeError. Where what the code does depends on
  the prototypes the host gives to booleans, numbers, strings and arrays, or on whether
  the script runs in strict mode, the model does not say: \<open>HostDependent\<close>.
\<close>

datatype 'a answer = Answer 'a | TypeError | HostDependent

fun thenDo :: "'a answer \<Rightarrow> ('a \<Rightarrow> 'b answer) \<Rightarrow> 'b answer" where
  "thenDo (Answer x) f = f x"
| "thenDo TypeError f = TypeError"
| "thenDo HostDependent f = HostDependent"

text \<open>
  Every object inherits the properties of \<open>Object.prototype\<close>: functions, and for
  \<open>__proto__\<close> the prototype itself. The names the code reads and writes by name are
  properties of no built-in prototype.
\<close>

definition objectPrototype :: "jsstring list" where
  "objectPrototype =
     map ascii [''constructor'', ''__defineGetter__'', ''__defineSetter__'', ''hasOwnProperty'',
                ''__lookupGetter__'', ''__lookupSetter__'', ''isPrototypeOf'',
                ''propertyIsEnumerable'', ''toString'', ''valueOf'', ''__proto__'',
                ''toLocaleString'']"

definition plainNames :: "jsstring list" where
  "plainNames =
     map ascii [''users'', ''currentUser'', ''password'', ''createdAt'', ''lastLogin'',
                ''highScore'', ''gamesPlayed'', ''totalScore'']"

text \<open>
  \<open>v[k]\<close>: null has no properties; an object gives its own property, or else an
  inherited one, or else undefined; any other value has none of the plain names.
\<close>

fun getProperty :: "json \<Rightarrow> jsstring \<Rightarrow> jsvalue answer" where
  "getProperty JNull k = TypeError"
| "getProperty (JObject f) k =
     Answer (case f k of
               Some x \<Rightarrow> Json x
             | None \<Rightarrow> if k \<in> set objectPrototype then Native else Undef)"
| "getProperty v k = (if k \<in> set plainNames then Answer Undef else HostDependent)"

fun readProperty :: "jsvalue \<Rightarrow> jsstring \<Rightarrow> jsvalue answer" where
  "readProperty Undef k = TypeError"
| "readProperty (Json v) k = getProperty v k"
| "readProperty Native k = (if k \<in> set plainNames then Answer Undef else HostDependent)"

text \<open>
  \<open>x[k] = v\<close>, as the object \<open>x\<close> is afterwards: an own property is written, but with
  no own property of that name \<open>__proto__\<close> sets the prototype, which is not saved.
\<close>

fun writeProperty :: "jsvalue \<Rightarrow> jsstring \<Rightarrow> json \<Rightarrow> json answer" where
  "writeProperty Undef k v = TypeError"
| "writeProperty (Json JNull) k v = TypeError"
| "writeProperty (Json (JObject f)) k v =
     Answer (JObject (if k = ascii ''__proto__'' \<and> f k = None then f else f(k \<mapsto> v)))"
| "writeProperty x k v = HostDependent"

text \<open>
  The code changes objects in place: \<open>changed d k v\<close> is the object \<open>d\<close> when the
  object in its own property \<open>k\<close> has become \<open>v\<close>.
\<close>

fun changed :: "json \<Rightarrow> jsstring \<Rightarrow> json \<Rightarrow> json" where
  "changed (JObject g) k v = JObject (g(k \<mapsto> v))"
| "changed d k v = d"

subsection \<open>storage.js\<close>

text \<open>
  The item of the local storage: \<open>None\<close> when there is none, when it is empty or when
  it does not parse, and the value it parses to otherwise. Writing an item is taken to
  succeed.
\<close>

type_synonym localStorage = "json option"

definition getDefaultData :: json where
  "getDefaultData =
     JObject [ascii ''users'' \<mapsto> JObject Map.empty, ascii ''currentUser'' \<mapsto> JNull]"

definition getData :: "localStorage \<Rightarrow> json" where
  "getData ls = (case ls of None \<Rightarrow> getDefaultData | Some v \<Rightarrow> v)"

definition saveData :: "json \<Rightarrow> localStorage" where
  "saveData d = Some (reparse d)"

text \<open>
  \<open>simpleHash\<close>: \<open>hash << 5\<close> and \<open>hash & hash\<close> work on 32-bit integers, so the
  loop is arithmetic on 32-bit words; the result is read as a signed integer and written
  in base 16 by \<open>toString(16)\<close>, with a minus sign when it is negative.
\<close>

fun hashLoop :: "32 word \<Rightarrow> jsstring \<Rightarrow> 32 word" where
  "hashLoop hash [] = hash"
| "hashLoop hash (c # cs) = hashLoop ((push_bit 5 hash - hash) + of_nat c) cs"

definition hexDigit :: "nat \<Rightarrow> nat" where
  "hexDigit d = (if d < 10 then 48 + d else 87 + d)"

fun hexDigits :: "nat \<Rightarrow> jsstring" where
  "hexDigits n = (if n < 16 then [hexDigit n] else hexDigits (n div 16) @ [hexDigit (n mod 16)])"

definition toString16 :: "int \<Rightarrow> jsstring" where
  "toString16 i = (if i < 0 then 45 # hexDigits (nat (- i)) else hexDigits (nat i))"

definition simpleHash :: "jsstring \<Rightarrow> jsstring" where
  "simpleHash str = toString16 (sint (hashLoop 0 str))"

text \<open>\<open>getUser\<close>: \<open>data.users[username] || null\<close>.\<close>

definition getUser :: "localStorage \<Rightarrow> jsstring \<Rightarrow> jsvalue answer" where
  "getUser ls username =
     thenDo (getProperty (getData ls) (ascii ''users''))
       (\<lambda>us. thenDo (readProperty us username)
          (\<lambda>u. Answer (if truthy u then u else Json JNull)))"

text \<open>\<open>now\<close> is \<open>new Date().toISOString()\<close>.\<close>

definition newUser :: "jsstring \<Rightarrow> jsstring \<Rightarrow> json" where
  "newUser now pw =
     JObject [ascii ''password'' \<mapsto> JString (simpleHash pw),
              ascii ''createdAt'' \<mapsto> JString now,
              ascii ''lastLogin'' \<mapsto> JString now,
              ascii ''highScore'' \<mapsto> JNumber 0,
              ascii ''gamesPlayed'' \<mapsto> JNumber 0,
              ascii ''totalScore'' \<mapsto> JNumber 0]"

definition createUser ::
  "jsstring \<Rightarrow> localStorage \<Rightarrow> jsstring \<Rightarrow> jsstring \<Rightarrow> (json \<times> localStorage) answer" where
  "createUser now ls username pw =
     (let d = getData ls; u = newUser now pw
      in thenDo (getProperty d (ascii ''users''))
           (\<lambda>us. thenDo (writeProperty us username u)
              (\<lambda>us'. Answer (u, saveData (changed d (ascii ''users'') us')))))"

definition verifyPassword :: "localStorage \<Rightarrow> jsstring \<Rightarrow> jsstring \<Rightarrow> bool answer" where
  "verifyPassword ls username pw =
     thenDo (getUser ls username)
       (\<lambda>u. if \<not> truthy u then Answer False
            else thenDo (readProperty u (ascii ''password''))
                   (\<lambda>p. Answer (p = Json (JString (simpleHash pw)))))"

text \<open>
  \<open>updateLoginTime\<close>: the write \<open>data.users[username].lastLogin = ...\<close> changes a
  stored object; on an array or on a built-in object it changes nothing that is saved.
\<close>

definition updateLoginTime :: "jsstring \<Rightarrow> localStorage \<Rightarrow> jsstring \<Rightarrow> localStorage answer" where
  "updateLoginTime now ls username =
     (let d = getData ls
      in thenDo (getProperty d (ascii ''users''))
           (\<lambda>us. thenDo (readProperty us username)
              (\<lambda>u. if \<not> truthy u then Answer ls
                   else case u of
                          Json (JObject uf) \<Rightarrow>
                            (case us of
                               Json usv \<Rightarrow>
                                 Answer (saveData (changed d (ascii ''users'')
                                   (changed usv username
                                      (JObject (uf(ascii ''lastLogin'' \<mapsto> JString now))))))
                             | _ \<Rightarrow> HostDependent)
                        | Json (JArray vs) \<Rightarrow> Answer (saveData d)
                        | Native \<Rightarrow> Answer (saveData d)
                        | _ \<Rightarrow> HostDependent)))"

definition setCurrentUser :: "localStorage \<Rightarrow> jsstring option \<Rightarrow> localStorage answer" where
  "setCurrentUser ls username =
     (let d = getData ls
      in case d of
           JNull \<Rightarrow> TypeError
         | JObject g \<Rightarrow>
             Answer (saveData (JObject (g(ascii ''currentUser'' \<mapsto>
                       (case username of None \<Rightarrow> JNull | Some n \<Rightarrow> JString n)))))
         | JArray vs \<Rightarrow> Answer (saveData d)
         | _ \<Rightarrow> HostDependent)"

subsection \<open>auth.js\<close>

text \<open>
  The messages of \<open>login\<close>, which the source writes in Chinese: enter a user name; the
  password needs at least 3 characters; logged in; wrong password; registered, welcome.
\<close>

datatype message = EnterUsername | PasswordTooShort | LoginSucceeded | WrongPassword | Registered

record loginResult =
  success :: bool
  message :: message
  isNewUser :: "bool option"

definition login ::
  "jsstring \<Rightarrow> localStorage \<Rightarrow> jsstring \<Rightarrow> jsstring \<Rightarrow> (loginResult \<times> localStorage) answer" where
  "login now ls username pw =
     (if username = [] \<or> length (trim username) = 0
      then Answer (\<lparr>success = False, message = EnterUsername, isNewUser = None\<rparr>, ls)
      else if pw = [] \<or> length pw < 3
      then Answer (\<lparr>success = False, message = PasswordTooShort, isNewUser = None\<rparr>, ls)
      else
        let trimmedUsername = trim username in
        thenDo (getUser ls trimmedUsername)
          (\<lambda>existingUser.
             if truthy existingUser then
               thenDo (verifyPassword ls trimmedUsername pw)
                 (\<lambda>ok. if ok then
                          thenDo (updateLoginTime now ls trimmedUsername)
                            (\<lambda>ls1. thenDo (setCurrentUser ls1 (Some trimmedUsername))
                               (\<lambda>ls2. Answer (\<lparr>success = True, message = LoginSucceeded,
                                                isNewUser = Some False\<rparr>, ls2)))
                        else Answer (\<lparr>success = False, message = WrongPassword,
                                      isNewUser = None\<rparr>, ls))
             else
               thenDo (createUser now ls trimmedUsername pw)
                 (\<lambda>created. thenDo (setCurrentUser (snd created) (Some trimmedUsername))
                    (\<lambda>ls2. Answer (\<lparr>success = True, message = Registered,
                                     isNewUser = Some True\<rparr>, ls2)))))"

text \<open>The stored data is an object whose \<open>users\<close> is an object, as \<open>saveData\<close> writes it.\<close>

definition wellShaped :: "localStorage \<Rightarrow> bool" where
  "wellShaped ls =
     (case getData ls of
        JObject g \<Rightarrow> (case g (ascii ''users'') of Some (JObject f) \<Rightarrow> True | _ \<Rightarrow> False)
      | _ \<Rightarrow> False)"

section \<open>Examples\<close>

text \<open>
  An example run of the engine, with both callbacks registered. The random numbers are
  5/8, 1/2, 9/16, 1/2, 21/32, 1/2, 5/8, 1/2 and then 1/4 for ever. They put
  the food at (12, 10) in \<open>init\<close> and at (11, 10) in the reset of \<open>start\<close>; the
  first tick eats it and the next food is at (13, 10); the third tick eats that one, the
  candidate (12, 10) is on the snake and the food goes to (5, 5). The states are: after
  \<open>init\<close>; after \<open>start\<close>; after the first tick; after nine ticks, with the head in
  the last column.
\<close>

definition demoDraws :: "binary64 list" where
  "demoDraws = [(5, 3), (1, 1), (9, 4), (1, 1), (21, 5), (1, 1), (5, 3), (1, 1), (1, 2), (1, 2)]"

definition demoRandom :: "nat \<Rightarrow> binary64" where
  "demoRandom i = (if i < length demoDraws then demoDraws ! i else (1, 2))"

definition demoIdle :: engine where
  "demoIdle =
     \<lparr>snake = [(10, 10), (9, 10), (8, 10)], food = Some (12, 10), direction = RIGHT,
      nextDirection = RIGHT, score = 0, gameState = IDLE, gameLoop = None, speed = 150,
      onScoreUpdate = True, onGameOver = True, timers = [], nextTimer = 1, listening = True,
      effects = [Render], random = demoRandom, drawn = 2\<rparr>"

definition demoPlaying :: engine where
  "demoPlaying =
     \<lparr>snake = [(10, 10), (9, 10), (8, 10)], food = Some (11, 10), direction = RIGHT,
      nextDirection = RIGHT, score = 0, gameState = PLAYING, gameLoop = Some 1, speed = 150,
      onScoreUpdate = True, onGameOver = True, timers = [(1, 150)], nextTimer = 2, listening = True,
      effects = [Render, Render], random = demoRandom, drawn = 4\<rparr>"

definition demoAte :: engine where
  "demoAte =
     \<lparr>snake = [(11, 10), (10, 10), (9, 10), (8, 10)], food = Some (13, 10), direction = RIGHT,
      nextDirection = RIGHT, score = 10, gameState = PLAYING, gameLoop = Some 2, speed = 148,
      onScoreUpdate = True, onGameOver = True, timers = [(2, 148)], nextTimer = 3, listening = True,
      effects = [Render, Render, ScoreUpdate 10, Render], random = demoRandom, drawn = 6\<rparr>"

definition demoAtWall :: engine where
  "demoAtWall =
     \<lparr>snake = [(19, 10), (18, 10), (17, 10), (16, 10), (15, 10)], food = Some (5, 5), direction = RIGHT,
      nextDirection = RIGHT, score = 20, gameState = PLAYING, gameLoop = Some 3, speed = 146,
      onScoreUpdate = True, onGameOver = True, timers = [(3, 146)], nextTimer = 4, listening = True,
      effects = [Render, Render, ScoreUpdate 10, Render, Render, ScoreUpdate 20, Render,
                 Render, Render, Render, Render, Render, Render],
      random = demoRandom, drawn = 10\<rparr>"

text \<open>
  Examples of stored data: the user alice, registered with the secret abc, and the same
  user registered with the secret AaA.
\<close>

definition demoNow :: jsstring where
  "demoNow = ascii ''2026-01-01T00:00:00.000Z''"

definition demoStored :: localStorage where
  "demoStored =
     Some (JObject [ascii ''users'' \<mapsto> JObject [ascii ''alice'' \<mapsto> newUser demoNow (ascii ''abc'')],
                    ascii ''currentUser'' \<mapsto> JString (ascii ''alice'')])"

definition demoStoredAaA :: localStorage where
  "demoStoredAaA =
     Some (JObject [ascii ''users'' \<mapsto> JObject [ascii ''alice'' \<mapsto> newUser demoNow (ascii ''AaA'')],
                    ascii ''currentUser'' \<mapsto> JString (ascii ''alice'')])"

section \<open>Lemmas about the engine\<close>

declare excessBits.simps [simp del]

lemma excessBits_small: "n < 2 ^ 53 \<Longrightarrow> excessBits n = 0"
  by (subst excessBits.simps) simp

lemma excessBits_large: "\<not> n < 2 ^ 53 \<Longrightarrow> excessBits n = Suc (excessBits (n div 2))"
  by (subst excessBits.simps) simp

lemma excessBits_le: "n < 2 ^ (53 + k) \<Longrightarrow> excessBits n \<le> k"
proof (induction k arbitrary: n)
  case 0
  then show ?case by (simp add: excessBits_small)
next
  case (Suc k)
  show ?case
  proof (cases "n < 2 ^ 53")
    case True
    then show ?thesis by (simp add: excessBits_small)
  next
    case False
    have e: "(2::nat) ^ (53 + Suc k) = 2 * 2 ^ (53 + k)"
      by (simp only: add_Suc_right power_Suc)
    from Suc.prems [unfolded e] have "n < 2 * 2 ^ (53 + k)" .
    then have "n div 2 < 2 ^ (53 + k)" by linarith
    from Suc.IH [OF this] False show ?thesis by (simp add: excessBits_large)
  qed
qed

lemma roundTiesToEven_le: "2 * (roundTiesToEven n s * 2 ^ s) \<le> 2 * n + 2 ^ s"
proof -
  define q where "q = n div 2 ^ s"
  define r where "r = n mod 2 ^ s"
  have n: "n = q * 2 ^ s + r" unfolding q_def r_def by (rule div_mult_mod_eq [symmetric])
  have up: "2 * ((q + 1) * 2 ^ s) \<le> 2 * n + 2 ^ s" if "2 ^ s \<le> 2 * r"
    using that by (simp add: n algebra_simps)
  have down: "2 * (q * 2 ^ s) \<le> 2 * n + 2 ^ s" by (simp add: n)
  have "roundTiesToEven n s = q \<or> (roundTiesToEven n s = q + 1 \<and> 2 ^ s \<le> 2 * r)"
    unfolding roundTiesToEven_def Let_def q_def [symmetric] r_def [symmetric]
    by (cases "2 * r < 2 ^ s"; cases "2 ^ s < 2 * r"; cases "even q") simp_all
  with up down show ?thesis by auto
qed

lemma floor64_times64_less:
  assumes "unitSample x"
  shows "floor64 (times64 x 20) < 20"
proof -
  obtain m e where x: "x = (m, e)" by (cases x)
  from assms x have m: "m < 2 ^ 53" "m < 2 ^ e" by (simp_all add: unitSample_def)
  define s where "s = excessBits (m * 20)"
  define v where "v = roundTiesToEven (m * 20) s * 2 ^ s"
  from m(1) have "m * 20 < 2 ^ (53 + 5)" by simp
  then have "s \<le> 5" unfolding s_def by (rule excessBits_le)
  then have "(2::nat) ^ s \<le> 2 ^ 5" by (rule power_increasing) simp
  then have s32: "(2::nat) ^ s \<le> 32" by simp
  from m(2) have "m + 1 \<le> 2 ^ e" by simp
  then have "40 * (m + 1) \<le> 40 * 2 ^ e" by simp
  moreover have "2 * v \<le> 2 * (m * 20) + 2 ^ s" unfolding v_def by (rule roundTiesToEven_le)
  ultimately have "v < 20 * 2 ^ e" using s32 by simp
  then have "v div 2 ^ e < 20" by (simp add: less_mult_imp_div_less)
  then show ?thesis by (simp add: x floor64_def times64_def Let_def s_def v_def)
qed

lemma excessBits_numeral [simp]: "excessBits (numeral k) =
   (if (numeral k :: nat) < 2 ^ 53 then 0 else Suc (excessBits (numeral k div 2)))"
  by (rule excessBits.simps)

lemma candidate_inGrid:
  "unitSamples r \<Longrightarrow> inGrid (candidate r i)"
  using floor64_times64_less [of "r i"] floor64_times64_less [of "r (Suc i)"]
  by (simp add: unitSamples_def inGrid_def candidate_def gridSize_def floor64_def)

lemma spawnFood_loop_Some:
  assumes "spawnFood_loop r segs i = Some y"
  shows "\<not> onSnake segs (fst y) \<and> (\<exists>k. fst y = candidate r (i + 2 * k) \<and> snd y = i + 2 * k + 2)"
proof (rule spawnFood_loop.raw_induct
    [where P = "\<lambda>r segs i y. \<not> onSnake segs (fst y) \<and>
                  (\<exists>k. fst y = candidate r (i + 2 * k) \<and> snd y = i + 2 * k + 2)", OF _ assms])
  fix loop :: "(nat \<Rightarrow> binary64) \<Rightarrow> cell list \<Rightarrow> nat \<Rightarrow> (cell \<times> nat) option"
  fix r segs i y
  assume IH: "\<And>r segs i y. loop r segs i = Some y \<Longrightarrow>
     \<not> onSnake segs (fst y) \<and> (\<exists>k. fst y = candidate r (i + 2 * k) \<and> snd y = i + 2 * k + 2)"
  assume eq: "(if onSnake segs (candidate r i) then loop r segs (i + 2)
               else Some (candidate r i, i + 2)) = Some y"
  show "\<not> onSnake segs (fst y) \<and> (\<exists>k. fst y = candidate r (i + 2 * k) \<and> snd y = i + 2 * k + 2)"
  proof (cases "onSnake segs (candidate r i)")
    case True
    with eq have "loop r segs (i + 2) = Some y" by simp
    from IH [OF this] obtain k where free: "\<not> onSnake segs (fst y)"
      and k: "fst y = candidate r (i + 2 + 2 * k)" "snd y = i + 2 + 2 * k + 2"
      by blast
    from k have "fst y = candidate r (i + 2 * Suc k) \<and> snd y = i + 2 * Suc k + 2" by simp
    with free show ?thesis by blast
  next
    case False
    with eq have "y = (candidate r i, i + 2)" by simp
    with False have "\<not> onSnake segs (fst y)"
      and "fst y = candidate r (i + 2 * 0) \<and> snd y = i + 2 * 0 + 2" by simp_all
    then show ?thesis by blast
  qed
qed

lemma spawnFood_loop_returns:
  "\<not> onSnake segs (candidate r (i + 2 * k)) \<Longrightarrow> \<exists>y. spawnFood_loop r segs i = Some y"
proof (induction k arbitrary: i)
  case 0
  then show ?case by (subst spawnFood_loop.simps) simp
next
  case (Suc k)
  then have "\<exists>y. spawnFood_loop r segs (i + 2) = Some y" by (simp add: algebra_simps)
  then show ?case by (subst spawnFood_loop.simps) auto
qed

lemma onSnake_set: "onSnake segs c = (c \<in> set segs)"
  by (induction segs) (auto simp: prod_eq_iff)

lemma spawnFood_Returns:
  assumes "spawnFood s = Returns s'"
  shows "\<exists>k. s' = s\<lparr>food := Some (candidate (random s) (drawn s + 2 * k)),
                     drawn := drawn s + 2 * k + 2\<rparr> \<and>
           candidate (random s) (drawn s + 2 * k) \<notin> set (snake s)"
proof -
  from assms obtain y where y: "spawnFood_loop (random s) (snake s) (drawn s) = Some y"
    and s': "s' = s\<lparr>food := Some (fst y), drawn := snd y\<rparr>"
    by (auto simp: spawnFood_def split: option.splits)
  from spawnFood_loop_Some [OF y] obtain k where "\<not> onSnake (snake s) (fst y)"
    "fst y = candidate (random s) (drawn s + 2 * k)" "snd y = drawn s + 2 * k + 2"
    by blast
  with s' have "s' = s\<lparr>food := Some (candidate (random s) (drawn s + 2 * k)),
                     drawn := drawn s + 2 * k + 2\<rparr> \<and>
           candidate (random s) (drawn s + 2 * k) \<notin> set (snake s)"
    by (simp add: onSnake_set)
  then show ?thesis ..
qed

lemma spawnFood_not_Throws: "spawnFood s \<noteq> Throws"
  by (simp add: spawnFood_def split: option.splits)

lemma spawnFood_returns_if:
  "\<not> onSnake (snake s) (candidate (random s) (drawn s + 2 * k)) \<Longrightarrow> \<exists>s'. spawnFood s = Returns s'"
  using spawnFood_loop_returns [of "snake s" "random s" "drawn s" k]
  by (auto simp: spawnFood_def)

lemma andThen_Returns:
  "andThen m f = Returns y \<longleftrightarrow> (\<exists>x. m = Returns x \<and> f x = Returns y)"
  by (cases m) auto

lemma spawnFood_foodFree:
  assumes "spawnFood s = Returns s'" "unitSamples (random s)"
  shows "foodFree s'" "snake s' = snake s" "random s' = random s"
  using spawnFood_Returns [OF assms(1)] assms(2)
  by (auto simp: foodFree_def candidate_inGrid onSnake_set)

lemma reset_Returns:
  assumes "reset s = Returns s'"
  shows "snake s' = [(10, 10), (9, 10), (8, 10)] \<and> direction s' = RIGHT \<and> nextDirection s' = RIGHT \<and>
         score s' = 0 \<and> speed s' = 150 \<and> gameState s' = IDLE \<and> gameLoop s' = None \<and>
         timers s' = (case gameLoop s of None \<Rightarrow> timers s | Some h \<Rightarrow> filter (\<lambda>t. fst t \<noteq> h) (timers s)) \<and>
         random s' = random s \<and> listening s' = listening s \<and>
         onScoreUpdate s' = onScoreUpdate s \<and> onGameOver s' = onGameOver s \<and>
         nextTimer s' = nextTimer s \<and> effects s' = effects s @ [Render] \<and>
         (\<exists>k. food s' = Some (candidate (random s) (drawn s + 2 * k)) \<and> drawn s' = drawn s + 2 * k + 2 \<and>
              candidate (random s) (drawn s + 2 * k) \<notin> set (snake s'))"
proof -
  from assms obtain s2 s3 where s2: "s2 = (case gameLoop s of None \<Rightarrow> s
                  | Some h \<Rightarrow> (clearInterval (Some h) s)\<lparr>gameLoop := None\<rparr>)
        \<lparr>snake := [(10, 10), (9, 10), (8, 10)], direction := RIGHT, nextDirection := RIGHT,
         score := 0, speed := 150\<rparr>"
    and sp: "spawnFood s2 = Returns s3" and s': "s' = render (s3\<lparr>gameState := IDLE\<rparr>)"
    by (auto simp: reset_def Let_def andThen_Returns gridSize_def initialSpeed_def)
  from spawnFood_Returns [OF sp] obtain k where
    s3: "s3 = s2\<lparr>food := Some (candidate (random s2) (drawn s2 + 2 * k)), drawn := drawn s2 + 2 * k + 2\<rparr>"
    and free: "candidate (random s2) (drawn s2 + 2 * k) \<notin> set (snake s2)" by blast
  have r: "random s2 = random s" "drawn s2 = drawn s" "snake s2 = [(10, 10), (9, 10), (8, 10)]"
    by (simp_all add: s2 clearInterval_def split: option.splits)
  have "food s' = Some (candidate (random s) (drawn s + 2 * k)) \<and> drawn s' = drawn s + 2 * k + 2 \<and>
              candidate (random s) (drawn s + 2 * k) \<notin> set (snake s')"
    using free r by (simp add: s' s3 render_def)
  then have ex: "\<exists>k. food s' = Some (candidate (random s) (drawn s + 2 * k)) \<and> drawn s' = drawn s + 2 * k + 2 \<and>
              candidate (random s) (drawn s + 2 * k) \<notin> set (snake s')" ..
  have rest: "snake s' = [(10, 10), (9, 10), (8, 10)] \<and> direction s' = RIGHT \<and> nextDirection s' = RIGHT \<and>
         score s' = 0 \<and> speed s' = 150 \<and> gameState s' = IDLE \<and> gameLoop s' = None \<and>
         timers s' = (case gameLoop s of None \<Rightarrow> timers s | Some h \<Rightarrow> filter (\<lambda>t. fst t \<noteq> h) (timers s)) \<and>
         random s' = random s \<and> listening s' = listening s \<and>
         onScoreUpdate s' = onScoreUpdate s \<and> onGameOver s' = onGameOver s \<and>
         nextTimer s' = nextTimer s \<and> effects s' = effects s @ [Render]"
    by (simp add: s' s3 s2 render_def clearInterval_def split: option.splits)
  from rest ex show ?thesis by blast
qed

lemma checkCollision_iff:
  "checkCollision c s \<longleftrightarrow> \<not> inGrid c \<or> c \<in> set (snake s)"
  by (auto simp: checkCollision_def inGrid_def onSnake_set)

lemma checkCollision_direction [simp]:
  "checkCollision c (s\<lparr>direction := d\<rparr>) = checkCollision c s"
  by (simp add: checkCollision_def)

lemma update_idle: "gameState s \<noteq> PLAYING \<Longrightarrow> update s = Returns s"
  by (simp add: update_def)

lemma update_collision:
  assumes "gameState s = PLAYING" "newHeadOf s = Some h" "checkCollision h s"
  shows "update s = Returns (endGame (s\<lparr>direction := nextDirection s\<rparr>))"
  using assms by (auto simp: update_def newHeadOf_def Let_def split: list.splits)

lemma update_move:
  assumes "gameState s = PLAYING" "newHeadOf s = Some h" "\<not> checkCollision h s"
    "food s = Some f" "f \<noteq> h"
  shows "update s = Returns (render (s\<lparr>direction := nextDirection s, snake := h # butlast (snake s)\<rparr>))"
  using assms by (auto simp: update_def newHeadOf_def Let_def split: list.splits)

lemma update_eat:
  assumes "gameState s = PLAYING" "newHeadOf s = Some h" "\<not> checkCollision h s" "food s = Some h"
  shows "update s = andThen (spawnFood (afterEating h s)) (\<lambda>s6. Returns (render s6))"
  using assms by (auto simp: update_def newHeadOf_def afterEating_def Let_def split: list.splits)

lemma foodFree_iff:
  "foodFree s \<longleftrightarrow> (\<exists>f. food s = Some f \<and> inGrid f \<and> f \<notin> set (snake s))"
  by (auto simp: foodFree_def onSnake_set split: option.splits)

lemma invariant_iff:
  "invariant s \<longleftrightarrow>
     snake s \<noteq> [] \<and> (\<exists>f. food s = Some f \<and> inGrid f \<and> f \<notin> set (snake s)) \<and>
     unitSamples (random s) \<and> nextDirection s \<noteq> opposite (direction s) \<and>
     50 \<le> speed s \<and> speed s \<le> 150 \<and> even (speed s) \<and>
     ((gameLoop s = None \<and> timers s = []) \<or>
      (\<exists>h. gameLoop s = Some h \<and> timers s = [(h, speed s)] \<and> gameState s = PLAYING))"
  by (auto simp: invariant_def foodFree_iff minSpeed_def initialSpeed_def split: option.splits)

lemma reset_invariant:
  assumes "reset s = Returns s'" "unitSamples (random s)"
    "timers s = (case gameLoop s of None \<Rightarrow> [] | Some h \<Rightarrow> [(h, sp)])"
  shows "invariant s'"
proof -
  note R = reset_Returns [OF assms(1)]
  from R obtain k where f: "food s' = Some (candidate (random s) (drawn s + 2 * k))"
    "candidate (random s) (drawn s + 2 * k) \<notin> set (snake s')" by blast
  have "inGrid (candidate (random s) (drawn s + 2 * k))" using assms(2) by (rule candidate_inGrid)
  moreover have "timers s' = []" using R assms(3) by (simp split: option.splits)
  ultimately show ?thesis using R assms(2) f
    by (simp add: invariant_iff)
qed

lemma init_invariant:
  assumes "init a b (engine0 r) = Returns s" "unitSamples r"
  shows "invariant s"
proof -
  from assms(1) obtain s1 where r: "reset ((engine0 r)\<lparr>onScoreUpdate := a, onGameOver := b\<rparr>) = Returns s1"
    and s: "s = s1\<lparr>listening := True\<rparr>"
    by (auto simp: init_def andThen_Returns)
  have "invariant s1"
    by (rule reset_invariant [OF r, where sp = 0]) (simp_all add: engine0_def assms(2))
  then show ?thesis by (simp add: s invariant_iff)
qed

lemma startTimer_invariant:
  assumes "invariant s" "gameLoop s = None"
  shows "invariant (startTimer (s\<lparr>gameState := PLAYING\<rparr>))"
  using assms by (simp add: invariant_iff startTimer_def setInterval_def)

lemma start_invariant:
  assumes "invariant s" "start s = Returns s'"
  shows "invariant s'"
proof (cases "gameState s = PLAYING")
  case True
  with assms show ?thesis by (simp add: start_def)
next
  case False
  show ?thesis
  proof (cases "gameState s = GAME_OVER \<or> gameState s = IDLE")
    case True
    with False assms(2) obtain s1 where r: "reset s = Returns s1"
      and s': "s' = startTimer (s1\<lparr>gameState := PLAYING\<rparr>)"
      by (auto simp: start_def andThen_Returns)
    have "invariant s1"
      by (rule reset_invariant [OF r, where sp = "speed s"]) (use assms(1) in \<open>auto simp: invariant_iff\<close>)
    moreover have "gameLoop s1 = None" using reset_Returns [OF r] by simp
    ultimately show ?thesis unfolding s' by (rule startTimer_invariant)
  next
    case F2: False
    with False assms(2) have s': "s' = startTimer (s\<lparr>gameState := PLAYING\<rparr>)"
      by (auto simp: start_def)
    have "gameLoop s = None" using assms(1) False by (auto simp: invariant_iff)
    with assms(1) show ?thesis unfolding s' by (rule startTimer_invariant)
  qed
qed

lemma togglePause_invariant:
  assumes "invariant s"
  shows "invariant (togglePause s)"
proof -
  consider "gameState s = PLAYING" | "gameState s = PAUSED" | "gameState s \<noteq> PLAYING" "gameState s \<noteq> PAUSED"
    by blast
  then show ?thesis
  proof cases
    case 1
    with assms show ?thesis
      by (auto simp: togglePause_def invariant_iff clearInterval_def)
  next
    case 2
    then have "gameLoop s = None" using assms by (auto simp: invariant_iff)
    from startTimer_invariant [OF assms this] 2 show ?thesis by (simp add: togglePause_def)
  next
    case 3
    with assms show ?thesis by (simp add: togglePause_def)
  qed
qed

lemma destroy_invariant:
  assumes "invariant s"
  shows "invariant (destroy s)"
  using assms
  by (auto simp: destroy_def invariant_iff clearInterval_def Let_def)

lemma preventDefault_invariant: "invariant (preventDefault s) = invariant s"
  by (simp add: preventDefault_def invariant_iff)

lemma keyDirection_not_opposite:
  "keyDirection code d = Some d' \<Longrightarrow> d' \<noteq> opposite d"
  by (cases d) (auto simp: keyDirection_def split: if_splits)

lemma handleKeyDown_invariant:
  assumes "invariant s" "handleKeyDown code s = Returns s'"
  shows "invariant s'"
proof (cases "code = ''Space''")
  case True
  have i: "invariant (preventDefault s)" using assms(1) by (simp add: preventDefault_invariant)
  show ?thesis
  proof (cases "gameState (preventDefault s) = IDLE \<or> gameState (preventDefault s) = GAME_OVER")
    case T: True
    with True assms(2) have "start (preventDefault s) = Returns s'"
      by (simp add: handleKeyDown_def Let_def)
    from start_invariant [OF i this] show ?thesis .
  next
    case False
    with True assms(2) have "s' = togglePause (preventDefault s)"
      by (simp add: handleKeyDown_def Let_def)
    with togglePause_invariant [OF i] show ?thesis by simp
  qed
next
  case False
  show ?thesis
  proof (cases "gameState s \<noteq> PLAYING \<or> keyDirection code (direction s) = None")
    case True
    with False assms show ?thesis by (auto simp: handleKeyDown_def split: if_splits)
  next
    case F: False
    then obtain d where d: "keyDirection code (direction s) = Some d" by auto
    with False F assms(2) have s': "s' = (preventDefault s)\<lparr>nextDirection := d\<rparr>"
      by (auto simp: handleKeyDown_def)
    from keyDirection_not_opposite [OF d] assms(1) show ?thesis
      by (simp add: s' preventDefault_def invariant_iff)
  qed
qed

lemma newHeadOf_Some: "snake s \<noteq> [] \<Longrightarrow> \<exists>h. newHeadOf s = Some h"
  by (cases "snake s") (simp_all add: newHeadOf_def)

lemma endGame_fields:
  "gameState (endGame s) = GAME_OVER \<and> gameLoop (endGame s) = None \<and>
   timers (endGame s) = (case gameLoop s of None \<Rightarrow> timers s | Some h \<Rightarrow> filter (\<lambda>t. fst t \<noteq> h) (timers s)) \<and>
   snake (endGame s) = snake s \<and> food (endGame s) = food s \<and> score (endGame s) = score s \<and>
   speed (endGame s) = speed s \<and> direction (endGame s) = direction s \<and>
   nextDirection (endGame s) = nextDirection s \<and> random (endGame s) = random s \<and>
   drawn (endGame s) = drawn s \<and> listening (endGame s) = listening s \<and>
   nextTimer (endGame s) = nextTimer s \<and>
   onScoreUpdate (endGame s) = onScoreUpdate s \<and> onGameOver (endGame s) = onGameOver s \<and>
   effects (endGame s) = effects s @ (if onGameOver s then [GameOverCall (score s)] else []) @ [Render]"
  by (simp add: endGame_def Let_def render_def clearInterval_def split: option.splits)

lemma afterEating_fields:
  "snake (afterEating h s) = h # snake s \<and> score (afterEating h s) = score s + 10 \<and>
   speed (afterEating h s) = (if speed s > 50 then speed s - 2 else speed s) \<and>
   direction (afterEating h s) = nextDirection s \<and> nextDirection (afterEating h s) = nextDirection s \<and>
   food (afterEating h s) = food s \<and> gameState (afterEating h s) = gameState s \<and>
   random (afterEating h s) = random s \<and> drawn (afterEating h s) = drawn s \<and>
   listening (afterEating h s) = listening s \<and>
   onScoreUpdate (afterEating h s) = onScoreUpdate s \<and> onGameOver (afterEating h s) = onGameOver s \<and>
   effects (afterEating h s) = effects s @ (if onScoreUpdate s then [ScoreUpdate (score s + 10)] else []) \<and>
   gameLoop (afterEating h s) = (if speed s > 50 then Some (nextTimer s) else gameLoop s) \<and>
   timers (afterEating h s) =
     (if speed s > 50
      then (case gameLoop s of None \<Rightarrow> timers s | Some k \<Rightarrow> filter (\<lambda>t. fst t \<noteq> k) (timers s))
           @ [(nextTimer s, speed s - 2)]
      else timers s)"
  by (simp add: afterEating_def Let_def startTimer_def setInterval_def clearInterval_def
      minSpeed_def speedIncrement_def split: option.splits)

lemma update_invariant:
  assumes inv: "invariant s" and upd: "update s = Returns s'"
  shows "invariant s'"
proof (cases "gameState s = PLAYING")
  case False
  with update_idle [of s] upd inv show ?thesis by simp
next
  case True
  from inv have ne: "snake s \<noteq> []" by (simp add: invariant_iff)
  from newHeadOf_Some [OF ne] obtain h where h: "newHeadOf s = Some h" ..
  from inv obtain f where f: "food s = Some f" "inGrid f" "f \<notin> set (snake s)"
    by (auto simp: invariant_iff)
  show ?thesis
  proof (cases "checkCollision h s")
    case C: True
    from update_collision [OF True h C] upd have s': "s' = endGame (s\<lparr>direction := nextDirection s\<rparr>)"
      by simp
    note E = endGame_fields [of "s\<lparr>direction := nextDirection s\<rparr>"]
    have "timers s' = []" using E inv unfolding s' by (auto simp: invariant_iff)
    with E inv f show ?thesis unfolding s' by (cases "nextDirection s") (auto simp: invariant_iff)
  next
    case NC: False
    show ?thesis
    proof (cases "f = h")
      case F: False
      from update_move [OF True h NC f(1) F] upd
      have s': "s' = render (s\<lparr>direction := nextDirection s, snake := h # butlast (snake s)\<rparr>)" by simp
      have "f \<notin> set (butlast (snake s))" using f(3) by (auto dest: in_set_butlastD)
      with inv f F show ?thesis unfolding s'
        by (cases "nextDirection s") (auto simp: invariant_iff render_def)
    next
      case E: True
      with f have fh: "food s = Some h" by simp
      from update_eat [OF True h NC fh] upd
      have "andThen (spawnFood (afterEating h s)) (\<lambda>s6. Returns (render s6)) = Returns s'" by simp
      then obtain s6 where
        sp: "spawnFood (afterEating h s) = Returns s6" and s': "s' = render s6"
        by (auto simp: andThen_Returns)
      note A = afterEating_fields [of h s]
      from spawnFood_Returns [OF sp] obtain k where
        s6: "s6 = (afterEating h s)\<lparr>food := Some (candidate (random s) (drawn s + 2 * k)),
                     drawn := drawn s + 2 * k + 2\<rparr>"
        and free: "candidate (random s) (drawn s + 2 * k) \<notin> set (h # snake s)"
        using A by auto
      have us: "unitSamples (random s)" using inv by (simp add: invariant_iff)
      have g: "inGrid (candidate (random s) (drawn s + 2 * k))" using us by (rule candidate_inGrid)
      have sp50: "50 \<le> speed s" "speed s \<le> 150" "even (speed s)" using inv by (simp_all add: invariant_iff)
      have spd: "50 \<le> speed s'" "speed s' \<le> 150" "even (speed s')"
        using sp50 A by (auto simp: s' s6 render_def)
      have tm: "(gameLoop s' = None \<and> timers s' = []) \<or>
        (\<exists>h. gameLoop s' = Some h \<and> timers s' = [(h, speed s')] \<and> gameState s' = PLAYING)"
        using inv True A by (auto simp: s' s6 render_def invariant_iff)
      have dir: "nextDirection s' \<noteq> opposite (direction s')"
        using A by (cases "nextDirection s") (simp_all add: s' s6 render_def)
      have "snake s' \<noteq> []" "food s' = Some (candidate (random s) (drawn s + 2 * k))"
        "candidate (random s) (drawn s + 2 * k) \<notin> set (snake s')" "unitSamples (random s')"
        using A free us by (simp_all add: s' s6 render_def)
      with g spd tm dir show ?thesis by (simp add: invariant_iff)
    qed
  qed
qed

lemma step_invariant:
  assumes "invariant s" "step a s = Returns s'"
  shows "invariant s'"
proof (cases a)
  case (Init x y)
  with assms(2) obtain s1 where r: "reset (s\<lparr>onScoreUpdate := x, onGameOver := y\<rparr>) = Returns s1"
    and s': "s' = s1\<lparr>listening := True\<rparr>"
    by (auto simp: init_def andThen_Returns)
  have "invariant s1"
    by (rule reset_invariant [OF r, where sp = "speed s"]) (use assms(1) in \<open>auto simp: invariant_iff\<close>)
  then show ?thesis by (simp add: s' invariant_iff)
next
  case Reset
  with assms(2) have r: "reset s = Returns s'" by simp
  show ?thesis
    by (rule reset_invariant [OF r, where sp = "speed s"]) (use assms(1) in \<open>auto simp: invariant_iff\<close>)
next
  case Start
  with assms start_invariant show ?thesis by simp
next
  case TogglePause
  with assms togglePause_invariant show ?thesis by auto
next
  case Destroy
  with assms destroy_invariant show ?thesis by auto
next
  case (KeyDown code)
  with assms handleKeyDown_invariant show ?thesis by (auto split: if_splits)
next
  case Tick
  with assms update_invariant show ?thesis by (auto split: if_splits)
qed

lemma reachable_invariant: "reachable s \<Longrightarrow> invariant s"
proof (induction rule: reachable.induct)
  case (reachable_init r scoreCb overCb s)
  then show ?case by (simp add: init_invariant)
next
  case (reachable_step s a s')
  then show ?case by (simp add: step_invariant)
qed

section \<open>The example run\<close>

lemma unitSamples_demoRandom: "unitSamples demoRandom"
proof -
  have "\<forall>x \<in> set demoDraws. unitSample x" by (simp add: demoDraws_def unitSample_def)
  then have "\<And>i. i < length demoDraws \<Longrightarrow> unitSample (demoDraws ! i)"
    using nth_mem by blast
  moreover have "unitSample (1, 2)" by (simp add: unitSample_def)
  ultimately show ?thesis by (auto simp: unitSamples_def demoRandom_def)
qed

text \<open>
  The product is rounded as binary64 rounds it. For the binary64 number nearest to 0.6,
  which is below 0.6, the product with 20 is 12 and not a number below 12; for the one
  nearest to 0.7 the exact product is half way between two numbers and goes to the even
  one, 14.
\<close>

lemma times64_rounds:
  "unitSample (5404319552844595, 53)"
  "times64 (5404319552844595, 53) 20 = (108086391056891904, 53)"
  "floor64 (times64 (5404319552844595, 53) 20) = 12"
  "unitSample (6305039478318694, 53)"
  "times64 (6305039478318694, 53) 20 = (126100789566373888, 53)"
  "floor64 (times64 (6305039478318694, 53) 20) = 14"
  by (simp_all add: unitSample_def times64_def floor64_def roundTiesToEven_def Let_def)

lemma spawnFood_loop_hit:
  "\<not> onSnake segs (candidate r i) \<Longrightarrow> spawnFood_loop r segs i = Some (candidate r i, i + 2)"
  by (subst spawnFood_loop.simps) simp

lemma spawnFood_loop_miss:
  "onSnake segs (candidate r i) \<Longrightarrow> spawnFood_loop r segs i = spawnFood_loop r segs (i + 2)"
  by (subst spawnFood_loop.simps) simp

lemma demo_candidates:
  "candidate demoRandom 0 = (12, 10)" "candidate demoRandom 2 = (11, 10)"
  "candidate demoRandom 4 = (13, 10)" "candidate demoRandom 6 = (12, 10)"
  "candidate demoRandom 8 = (5, 5)"
  by (simp_all add: candidate_def demoRandom_def demoDraws_def gridSize_def times64_def floor64_def
      roundTiesToEven_def Let_def)

lemma init_demo: "init True True (engine0 demoRandom) = Returns demoIdle"
  by (simp add: init_def reset_def engine0_def spawnFood_def spawnFood_loop_hit demo_candidates
      gridSize_def initialSpeed_def render_def demoIdle_def Let_def)

lemma start_demo: "start demoIdle = Returns demoPlaying"
  by (simp add: start_def reset_def spawnFood_def spawnFood_loop_hit demo_candidates
      gridSize_def initialSpeed_def render_def demoIdle_def demoPlaying_def Let_def
      startTimer_def setInterval_def)

lemmas eval_defs = update_def checkCollision_def endGame_def spawnFood_def
      gridSize_def initialSpeed_def minSpeed_def speedIncrement_def render_def Let_def
      startTimer_def setInterval_def clearInterval_def

lemma tick_demo: "update demoPlaying = Returns demoAte"
  by (simp add: eval_defs spawnFood_loop_hit demo_candidates demoPlaying_def demoAte_def)

lemma run_demo_wall:
  "run [Tick, Tick, Tick, Tick, Tick, Tick, Tick, Tick] demoAte = Returns demoAtWall"
  by (simp add: eval_defs spawnFood_loop_hit spawnFood_loop_miss demo_candidates demoAte_def demoAtWall_def)

lemma run_append: "run (as @ bs) s = andThen (run as s) (run bs)"
proof (induction as arbitrary: s)
  case Nil
  show ?case by simp
next
  case (Cons a as)
  then show ?case by (cases "step a s") simp_all
qed

lemma run_reachable:
  "reachable s \<Longrightarrow> run acts s = Returns s' \<Longrightarrow> reachable s'"
proof (induction acts arbitrary: s)
  case Nil
  then show ?case by simp
next
  case (Cons a acts)
  from Cons.prems(2) obtain s1 where a: "step a s = Returns s1" and r: "run acts s1 = Returns s'"
    by (auto simp: andThen_Returns)
  from reachable_step [OF Cons.prems(1) a] have "reachable s1" .
  from Cons.IH [OF this r] show ?case .
qed

lemma reachable_demoIdle: "reachable demoIdle"
  by (rule reachable_init [OF unitSamples_demoRandom init_demo])

lemma reachable_demoPlaying: "reachable demoPlaying"
  by (rule reachable_step [OF reachable_demoIdle, of Start]) (simp add: start_demo)

lemma reachable_demoAte: "reachable demoAte"
proof -
  have "timers demoPlaying \<noteq> []" by (simp add: demoPlaying_def)
  then have "step Tick demoPlaying = Returns demoAte" by (simp add: tick_demo)
  with reachable_demoPlaying show ?thesis by (rule reachable_step)
qed

lemma reachable_demoAtWall: "reachable demoAtWall"
  by (rule run_reachable [OF reachable_demoAte run_demo_wall])

section \<open>Ticks, steps and runs\<close>

lemma update_eat_Returns:
  assumes "gameState s = PLAYING" "newHeadOf s = Some h" "\<not> checkCollision h s" "food s = Some h"
    "update s = Returns s'"
  shows "\<exists>k. s' = render ((afterEating h s)\<lparr>food := Some (candidate (random s) (drawn s + 2 * k)),
                     drawn := drawn s + 2 * k + 2\<rparr>) \<and>
             candidate (random s) (drawn s + 2 * k) \<notin> set (h # snake s)"
proof -
  from update_eat [OF assms(1-4)] assms(5)
  have "andThen (spawnFood (afterEating h s)) (\<lambda>s6. Returns (render s6)) = Returns s'" by simp
  then obtain s6 where sp: "spawnFood (afterEating h s) = Returns s6" and s': "s' = render s6"
    by (auto simp: andThen_Returns)
  from spawnFood_Returns [OF sp] afterEating_fields [of h s] s' show ?thesis by auto
qed

lemma update_eat_returns_if:
  assumes "gameState s = PLAYING" "newHeadOf s = Some h" "\<not> checkCollision h s" "food s = Some h"
    "candidate (random s) (drawn s + 2 * k) \<notin> set (h # snake s)"
  shows "\<exists>s'. update s = Returns s'"
proof -
  note A = afterEating_fields [of h s]
  have "\<not> onSnake (snake (afterEating h s))
          (candidate (random (afterEating h s)) (drawn (afterEating h s) + 2 * k))"
    using assms(5) A by (simp add: onSnake_set)
  from spawnFood_returns_if [OF this] obtain s6 where "spawnFood (afterEating h s) = Returns s6" ..
  with update_eat [OF assms(1-4)] show ?thesis by simp
qed

lemma update_eat_not_Throws:
  assumes "gameState s = PLAYING" "newHeadOf s = Some h" "\<not> checkCollision h s" "food s = Some h"
  shows "update s \<noteq> Throws"
  using update_eat [OF assms] spawnFood_not_Throws [of "afterEating h s"]
  by (cases "spawnFood (afterEating h s)") simp_all

lemma eats_newHead:
  "eats s \<Longrightarrow> \<exists>h. gameState s = PLAYING \<and> newHeadOf s = Some h \<and> \<not> checkCollision h s \<and> food s = Some h"
  by (auto simp: eats_def split: option.splits)

lemma update_Returns_cases:
  assumes "update s = Returns s'"
  obtains (idle) "gameState s \<noteq> PLAYING" "s' = s"
  | (collision) h where "gameState s = PLAYING" "newHeadOf s = Some h" "checkCollision h s"
      "s' = endGame (s\<lparr>direction := nextDirection s\<rparr>)" "\<not> eats s"
  | (move) h f where "gameState s = PLAYING" "newHeadOf s = Some h" "\<not> checkCollision h s"
      "food s = Some f" "f \<noteq> h"
      "s' = render (s\<lparr>direction := nextDirection s, snake := h # butlast (snake s)\<rparr>)" "\<not> eats s"
  | (eat) h k where "gameState s = PLAYING" "newHeadOf s = Some h" "\<not> checkCollision h s"
      "food s = Some h"
      "s' = render ((afterEating h s)\<lparr>food := Some (candidate (random s) (drawn s + 2 * k)),
                     drawn := drawn s + 2 * k + 2\<rparr>)" "eats s"
proof (cases "gameState s = PLAYING")
  case False
  with assms update_idle [of s] show ?thesis by (intro idle) simp_all
next
  case True
  show ?thesis
  proof (cases "newHeadOf s")
    case None
    then have "snake s = []" by (simp add: newHeadOf_def split: list.splits)
    with True assms show ?thesis by (simp add: update_def)
  next
    case (Some h)
    show ?thesis
    proof (cases "checkCollision h s")
      case C: True
      have "\<not> eats s" using Some C by (simp add: eats_def)
      with update_collision [OF True Some C] assms show ?thesis by (intro collision [of h]) (simp_all add: True Some C)
    next
      case NC: False
      show ?thesis
      proof (cases "food s")
        case None
        with True Some NC assms show ?thesis
          by (auto simp: update_def newHeadOf_def Let_def split: list.splits)
      next
        case F: (Some f)
        show ?thesis
        proof (cases "f = h")
          case E: True
          with F have fh: "food s = Some h" by simp
          have e: "eats s" using True Some NC fh by (simp add: eats_def)
          from update_eat_Returns [OF True Some NC fh assms] obtain k where
            "s' = render ((afterEating h s)\<lparr>food := Some (candidate (random s) (drawn s + 2 * k)),
                     drawn := drawn s + 2 * k + 2\<rparr>)" by blast
          with True Some NC fh e show ?thesis by (intro eat [of h k])
        next
          case NE: False
          have "\<not> eats s" using Some F NE by (simp add: eats_def)
          with update_move [OF True Some NC F NE] assms True Some NC F NE show ?thesis
            by (intro move [of h f]) simp_all
        qed
      qed
    qed
  qed
qed

lemma update_speed:
  assumes "update s = Returns s'"
  shows "speed s' = (if eats s \<and> 50 < speed s then speed s - 2 else speed s)"
  using assms
proof (cases rule: update_Returns_cases)
  case idle
  then have "\<not> eats s" by (simp add: eats_def)
  with idle show ?thesis by simp
next
  case (collision h)
  with endGame_fields [of "s\<lparr>direction := nextDirection s\<rparr>"] show ?thesis by simp
next
  case (move h f)
  then show ?thesis by (simp add: render_def)
next
  case (eat h k)
  with afterEating_fields [of h s] show ?thesis by (simp add: render_def)
qed

lemma update_score:
  assumes "update s = Returns s'"
  shows "score s' = (if eats s then score s + 10 else score s)"
  using assms
proof (cases rule: update_Returns_cases)
  case idle
  then have "\<not> eats s" by (simp add: eats_def)
  with idle show ?thesis by simp
next
  case (collision h)
  with endGame_fields [of "s\<lparr>direction := nextDirection s\<rparr>"] show ?thesis by simp
next
  case (move h f)
  then show ?thesis by (simp add: render_def)
next
  case (eat h k)
  with afterEating_fields [of h s] show ?thesis by (simp add: render_def)
qed

lemma update_direction:
  assumes "update s = Returns s'"
  shows "direction s' = (if gameState s = PLAYING then nextDirection s else direction s)"
  using assms
proof (cases rule: update_Returns_cases)
  case idle
  then show ?thesis by simp
next
  case (collision h)
  with endGame_fields [of "s\<lparr>direction := nextDirection s\<rparr>"] show ?thesis by simp
next
  case (move h f)
  then show ?thesis by (simp add: render_def)
next
  case (eat h k)
  with afterEating_fields [of h s] show ?thesis by (simp add: render_def)
qed

lemma update_eat_effects:
  assumes "eats s" "update s = Returns s'"
  shows "effects s' = effects s @ (if onScoreUpdate s then [ScoreUpdate (score s + 10)] else []) @ [Render]"
  using assms(2)
proof (cases rule: update_Returns_cases)
  case (eat h k)
  with afterEating_fields [of h s] show ?thesis by (simp add: render_def)
qed (use assms(1) in \<open>simp_all add: eats_def\<close>)

lemma togglePause_fields:
  "speed (togglePause s) = speed s \<and> score (togglePause s) = score s \<and>
   snake (togglePause s) = snake s \<and> food (togglePause s) = food s \<and>
   direction (togglePause s) = direction s \<and> nextDirection (togglePause s) = nextDirection s \<and>
   effects (togglePause s) = effects s \<and> random (togglePause s) = random s \<and>
   drawn (togglePause s) = drawn s \<and> listening (togglePause s) = listening s"
  by (simp add: togglePause_def startTimer_def setInterval_def clearInterval_def split: option.splits)

lemma handleKeyDown_keeps:
  assumes "handleKeyDown code s = Returns s'"
    "\<not> (code = ''Space'' \<and> (gameState s = IDLE \<or> gameState s = GAME_OVER))"
  shows "speed s' = speed s \<and> score s' = score s \<and> direction s' = direction s"
proof (cases "code = ''Space''")
  case True
  with assms have "s' = togglePause (preventDefault s)"
    by (auto simp: handleKeyDown_def Let_def preventDefault_def)
  with togglePause_fields [of "preventDefault s"] show ?thesis by (simp add: preventDefault_def)
next
  case False
  with assms(1) show ?thesis
    by (auto simp: handleKeyDown_def preventDefault_def split: if_splits option.splits)
qed

lemma step_keeps:
  assumes "step a s = Returns s'" "\<not> resets a s"
  shows "speed s' = (if a = Tick \<and> timers s \<noteq> [] \<and> eats s \<and> 50 < speed s then speed s - 2 else speed s) \<and>
         score s' = (if a = Tick \<and> timers s \<noteq> [] \<and> eats s then score s + 10 else score s)"
proof (cases a)
  case (Init x y)
  with assms show ?thesis by simp
next
  case Reset
  with assms show ?thesis by simp
next
  case Start
  with assms show ?thesis
    by (auto simp: start_def startTimer_def setInterval_def split: if_splits)
next
  case TogglePause
  with assms togglePause_fields [of s] show ?thesis by auto
next
  case Destroy
  with assms show ?thesis by (auto simp: destroy_def Let_def clearInterval_def split: option.splits)
next
  case (KeyDown code)
  show ?thesis
  proof (cases "listening s")
    case True
    with KeyDown assms have "handleKeyDown code s = Returns s'"
      "\<not> (code = ''Space'' \<and> (gameState s = IDLE \<or> gameState s = GAME_OVER))" by auto
    from handleKeyDown_keeps [OF this] KeyDown show ?thesis by simp
  next
    case False
    with KeyDown assms show ?thesis by simp
  qed
next
  case Tick
  show ?thesis
  proof (cases "timers s = []")
    case True
    with Tick assms show ?thesis by simp
  next
    case False
    with Tick assms have "update s = Returns s'" by simp
    from update_speed [OF this] update_score [OF this] Tick False show ?thesis by simp
  qed
qed

lemma step_resets_score:
  assumes "step a s = Returns s'" "resets a s"
  shows "score s' = 0 \<and> speed s' = 150"
proof -
  have R: "\<And>t t'. reset t = Returns t' \<Longrightarrow> score t' = 0 \<and> speed t' = 150"
    using reset_Returns by blast
  show ?thesis
  proof (cases a)
    case (Init x y)
    with assms(1) obtain s1 where "reset (s\<lparr>onScoreUpdate := x, onGameOver := y\<rparr>) = Returns s1"
      "s' = s1\<lparr>listening := True\<rparr>" by (auto simp: init_def andThen_Returns)
    with R show ?thesis by auto
  next
    case Reset
    with assms R show ?thesis by simp
  next
    case Start
    with assms obtain s1 where "reset s = Returns s1" "s' = startTimer (s1\<lparr>gameState := PLAYING\<rparr>)"
      by (auto simp: start_def andThen_Returns split: if_splits)
    with R [of s s1] show ?thesis by (simp add: startTimer_def setInterval_def)
  next
    case (KeyDown code)
    with assms obtain s1 where "reset (preventDefault s) = Returns s1"
      "s' = startTimer (s1\<lparr>gameState := PLAYING\<rparr>)"
      by (auto simp: handleKeyDown_def start_def andThen_Returns preventDefault_def Let_def split: if_splits)
    with R [of "preventDefault s" s1] show ?thesis by (simp add: startTimer_def setInterval_def)
  qed (use assms in simp_all)
qed

lemma run_resetFree_speed:
  "resetFree acts s \<Longrightarrow> run acts s = Returns s' \<Longrightarrow> speed s' \<le> speed s"
proof (induction acts arbitrary: s)
  case Nil
  then show ?case by simp
next
  case (Cons a acts)
  from Cons.prems(2) obtain s1 where a: "step a s = Returns s1" and r: "run acts s1 = Returns s'"
    by (auto simp: andThen_Returns)
  from Cons.prems(1) a have nr: "\<not> resets a s" and rf: "resetFree acts s1" by simp_all
  from step_keeps [OF a nr] have "speed s1 \<le> speed s" by (simp split: if_splits)
  with Cons.IH [OF rf r] show ?case by simp
qed

lemma run_score_eaten:
  "score s = 10 * int n \<Longrightarrow> run acts s = Returns s' \<Longrightarrow> score s' = 10 * int (eaten acts s n)"
proof (induction acts arbitrary: s n)
  case Nil
  then show ?case by simp
next
  case (Cons a acts)
  from Cons.prems(2) obtain s1 where a: "step a s = Returns s1" and r: "run acts s1 = Returns s'"
    by (auto simp: andThen_Returns)
  let ?n = "if resets a s then 0 else if a = Tick \<and> timers s \<noteq> [] \<and> eats s then Suc n else n"
  have "score s1 = 10 * int ?n"
  proof (cases "resets a s")
    case True
    with step_resets_score [OF a] show ?thesis by simp
  next
    case False
    with step_keeps [OF a] Cons.prems(1) show ?thesis by simp
  qed
  from Cons.IH [OF this r] a show ?case by simp
qed

lemma keys_keep_direction:
  assumes "reachable s" "''Space'' \<notin> set keys"
  shows "\<exists>s1. run (map KeyDown keys) s = Returns s1 \<and> direction s1 = direction s \<and> reachable s1"
  using assms
proof (induction keys arbitrary: s)
  case Nil
  then show ?case by simp
next
  case (Cons k keys)
  from Cons.prems(2) have k: "k \<noteq> ''Space''" and ks: "''Space'' \<notin> set keys" by auto
  have "\<exists>s0. step (KeyDown k) s = Returns s0 \<and> direction s0 = direction s"
    using k by (auto simp: handleKeyDown_def preventDefault_def split: option.splits)
  then obtain s0 where s0: "step (KeyDown k) s = Returns s0" "direction s0 = direction s" by blast
  from reachable_step [OF Cons.prems(1) s0(1)] have "reachable s0" .
  from Cons.IH [OF this ks] s0 show ?case by auto
qed

lemma startTimer_fields:
  "startTimer s = s\<lparr>timers := timers s @ [(nextTimer s, speed s)], nextTimer := Suc (nextTimer s),
                    gameLoop := Some (nextTimer s)\<rparr>"
  by (simp add: startTimer_def setInterval_def)

lemma reset_not_Throws: "reset s \<noteq> Throws"
  using spawnFood_not_Throws
  by (auto simp: reset_def Let_def split: option.splits elim!: andThen.elims)

lemma start_Returns_fields:
  assumes g: "gameState s = IDLE \<or> gameState s = GAME_OVER" and st: "start s = Returns s'"
  shows "(\<exists>s1. reset s = Returns s1 \<and> s' = startTimer (s1\<lparr>gameState := PLAYING\<rparr>)) \<and>
         snake s' = [(10, 10), (9, 10), (8, 10)] \<and> direction s' = RIGHT \<and>
         nextDirection s' = RIGHT \<and> score s' = 0 \<and> speed s' = initialSpeed \<and>
         (\<exists>k. food s' = Some (candidate (random s) (drawn s + 2 * k)) \<and>
              drawn s' = drawn s + 2 * k + 2) \<and>
         effects s' = effects s @ [Render] \<and>
         gameState s' = PLAYING \<and> gameLoop s' = Some (nextTimer s) \<and>
         (nextTimer s, initialSpeed) \<in> set (timers s')"
proof -
  from g st have "andThen (reset s) (\<lambda>s1. Returns (startTimer (s1\<lparr>gameState := PLAYING\<rparr>))) = Returns s'"
    by (auto simp: start_def)
  then obtain s1 where r: "reset s = Returns s1" and s': "s' = startTimer (s1\<lparr>gameState := PLAYING\<rparr>)"
    by (auto simp: andThen_Returns)
  note R = reset_Returns [OF r]
  from R obtain k where k: "food s1 = Some (candidate (random s) (drawn s + 2 * k))"
    "drawn s1 = drawn s + 2 * k + 2" by blast
  have f: "\<exists>k. food s' = Some (candidate (random s) (drawn s + 2 * k)) \<and>
            drawn s' = drawn s + 2 * k + 2"
    using k by (auto simp: s' startTimer_fields)
  have e: "\<exists>s1. reset s = Returns s1 \<and> s' = startTimer (s1\<lparr>gameState := PLAYING\<rparr>)"
    using r s' by blast
  have "snake s' = [(10, 10), (9, 10), (8, 10)] \<and> direction s' = RIGHT \<and>
       nextDirection s' = RIGHT \<and> score s' = 0 \<and> speed s' = initialSpeed \<and>
       effects s' = effects s @ [Render] \<and>
       gameState s' = PLAYING \<and> gameLoop s' = Some (nextTimer s) \<and>
       (nextTimer s, initialSpeed) \<in> set (timers s')"
    using R by (simp add: s' startTimer_fields initialSpeed_def)
  with f e show ?thesis by blast
qed

section \<open>Lemmas about login\<close>

lemma map_option_comp_upd:
  "map_option h \<circ> m(k \<mapsto> v) = (map_option h \<circ> m)(k \<mapsto> h v)"
  by (rule ext) simp

lemma map_option_comp_empty: "map_option h \<circ> Map.empty = Map.empty"
  by (rule ext) simp

lemma reparse_newUser: "reparse (newUser now pw) = newUser now pw"
  by (simp add: newUser_def map_option_comp_upd map_option_comp_empty)

lemma trim_Nil [simp]: "trim [] = []"
  by (simp add: trim_def)

lemma names:
  "ascii ''users'' \<notin> set objectPrototype" "ascii ''password'' \<notin> set objectPrototype"
  "ascii ''password'' \<in> set plainNames" "ascii ''users'' \<in> set plainNames"
  "ascii ''users'' \<noteq> ascii ''currentUser''" "ascii ''currentUser'' \<noteq> ascii ''users''"
  "ascii ''lastLogin'' \<noteq> ascii ''password''" "ascii ''password'' \<noteq> ascii ''lastLogin''"
  by (simp_all add: objectPrototype_def plainNames_def ascii_def)

lemma wellShaped_iff:
  "wellShaped ls \<longleftrightarrow> (\<exists>g f. getData ls = JObject g \<and> g (ascii ''users'') = Some (JObject f))"
  by (auto simp: wellShaped_def split: json.splits option.splits)

lemma wellShaped_None: "wellShaped None"
  by (simp add: wellShaped_iff getData_def getDefaultData_def names)


lemma getUser_shaped:
  assumes "getData ls = JObject g" "g (ascii ''users'') = Some (JObject f)"
  shows "getUser ls t =
           Answer (case f t of
                     Some x \<Rightarrow> if truthy (Json x) then Json x else Json JNull
                   | None \<Rightarrow> if t \<in> set objectPrototype then Native else Json JNull)"
  using assms by (simp add: getUser_def split: option.splits)

lemma getUser_object:
  assumes "getUser ls t = Answer (Json (JObject u))"
  shows "\<exists>g f. getData ls = JObject g \<and> g (ascii ''users'') = Some (JObject f) \<and>
               f t = Some (JObject u)"
proof (cases "getData ls")
  case (JObject g)
  show ?thesis
  proof (cases "g (ascii ''users'')")
    case None
    with JObject assms show ?thesis by (simp add: getUser_def names)
  next
    case (Some us)
    show ?thesis
    proof (cases us)
      case (JObject f)
      from assms \<open>getData ls = JObject g\<close> Some JObject show ?thesis
        by (auto simp: getUser_def split: option.splits if_splits)
    qed (use assms \<open>getData ls = JObject g\<close> Some in
          \<open>auto simp: getUser_def split: if_splits\<close>)
  qed
qed (use assms in \<open>auto simp: getUser_def names split: if_splits\<close>)

lemma login_no_username:
  "trim username = [] \<Longrightarrow>
   login now ls username pw =
     Answer (\<lparr>success = False, message = EnterUsername, isNewUser = None\<rparr>, ls)"
  by (simp add: login_def)

lemma login_short_password:
  "trim username \<noteq> [] \<Longrightarrow> length pw < 3 \<Longrightarrow>
   login now ls username pw =
     Answer (\<lparr>success = False, message = PasswordTooShort, isNewUser = None\<rparr>, ls)"
  by (auto simp: login_def)

lemma login_valid:
  assumes "trim username \<noteq> []" "3 \<le> length pw"
  shows "login now ls username pw =
     thenDo (getUser ls (trim username))
          (\<lambda>existingUser.
             if truthy existingUser then
               thenDo (verifyPassword ls (trim username) pw)
                 (\<lambda>ok. if ok then
                          thenDo (updateLoginTime now ls (trim username))
                            (\<lambda>ls1. thenDo (setCurrentUser ls1 (Some (trim username)))
                               (\<lambda>ls2. Answer (\<lparr>success = True, message = LoginSucceeded,
                                                isNewUser = Some False\<rparr>, ls2)))
                        else Answer (\<lparr>success = False, message = WrongPassword,
                                      isNewUser = None\<rparr>, ls))
             else
               thenDo (createUser now ls (trim username) pw)
                 (\<lambda>created. thenDo (setCurrentUser (snd created) (Some (trim username)))
                    (\<lambda>ls2. Answer (\<lparr>success = True, message = Registered,
                                     isNewUser = Some True\<rparr>, ls2))))"
proof -
  from assms(1) have u: "username \<noteq> []" by auto
  from assms(2) have p: "pw \<noteq> []" "\<not> length pw < 3" by auto
  show ?thesis using assms(1) u p by (simp add: login_def Let_def)
qed

lemma login_registers:
  assumes d: "getData ls = JObject g" "g (ascii ''users'') = Some (JObject f)"
    and v: "trim username \<noteq> []" "3 \<le> length pw"
    and n: "getUser ls (trim username) = Answer (Json JNull)"
  shows "\<exists>ls'. login now ls username pw =
             Answer (\<lparr>success = True, message = Registered, isNewUser = Some True\<rparr>, ls') \<and>
           getUser ls' (trim username) = Answer (Json (newUser now pw)) \<and>
           getProperty (getData ls') (ascii ''currentUser'') =
             Answer (Json (JString (trim username))) \<and>
           wellShaped ls'"
proof -
  let ?t = "trim username"
  from n getUser_shaped [OF d, of ?t]
  have own: "f ?t \<noteq> None \<or> ?t \<notin> set objectPrototype"
    by (auto split: option.splits if_splits)
  have np: "\<not> (?t = ascii ''__proto__'' \<and> f ?t = None)"
    using own by (auto simp: objectPrototype_def)
  let ?ls' = "Some (reparse (JObject ((map_option reparse \<circ> g(ascii ''users'' \<mapsto> JObject (f(?t \<mapsto> newUser now pw))))
                     (ascii ''currentUser'' \<mapsto> JString ?t))))"
  have c: "createUser now ls ?t pw =
             Answer (newUser now pw,
               Some (reparse (JObject (g(ascii ''users'' \<mapsto> JObject (f(?t \<mapsto> newUser now pw)))))))"
  proof -
    have w: "writeProperty (Json (JObject f)) ?t (newUser now pw) =
               Answer (JObject (f(?t \<mapsto> newUser now pw)))"
      using np by auto
    show ?thesis using d by (simp add: createUser_def Let_def saveData_def w del: writeProperty.simps)
  qed
  have l: "login now ls username pw =
             Answer (\<lparr>success = True, message = Registered, isNewUser = Some True\<rparr>, ?ls')"
    by (simp add: login_valid [OF v] n c setCurrentUser_def getData_def saveData_def Let_def)
  have gd: "getData ?ls' = JObject (map_option reparse \<circ> ((map_option reparse \<circ> g(ascii ''users'' \<mapsto> JObject (f(?t \<mapsto> newUser now pw))))
                     (ascii ''currentUser'' \<mapsto> JString ?t)))"
    by (simp add: getData_def)
  have us: "(map_option reparse \<circ> ((map_option reparse \<circ> g(ascii ''users'' \<mapsto> JObject (f(?t \<mapsto> newUser now pw))))
                     (ascii ''currentUser'' \<mapsto> JString ?t))) (ascii ''users'') =
            Some (JObject (map_option reparse \<circ> (map_option reparse \<circ> f(?t \<mapsto> newUser now pw))))"
    by (simp add: names)
  have tr: "truthy (Json (newUser now pw))" by (simp add: newUser_def)
  have 1: "getUser ?ls' ?t = Answer (Json (newUser now pw))"
    by (subst getUser_shaped [OF gd us]) (simp add: reparse_newUser tr)
  have 2: "getProperty (getData ?ls') (ascii ''currentUser'') = Answer (Json (JString ?t))"
    by (subst gd) simp
  have 3: "wellShaped ?ls'" unfolding wellShaped_iff using gd us by blast
  from l 1 2 3 show ?thesis by blast
qed


lemma reparse_idem: "reparse (reparse v) = reparse v"
proof (induction v)
  case (JArray vs)
  then show ?case by (induction vs) simp_all
next
  case (JObject f)
  have "map_option reparse (map_option reparse (f k)) = map_option reparse (f k)" for k
  proof (cases "f k")
    case None
    then show ?thesis by simp
  next
    case (Some x)
    then have "x \<in> set_option (f k)" by simp
    then have "reparse (reparse x) = reparse x" using JObject.IH by (meson rangeI UnionI imageI)
    with Some show ?thesis by simp
  qed
  then have "map_option reparse \<circ> (map_option reparse \<circ> f) = map_option reparse \<circ> f"
    by (auto simp: fun_eq_iff)
  then show ?case by simp
qed simp_all

lemma truthy_reparse_object: "truthy (Json (reparse (JObject u)))"
  by simp

lemma login_existing_wrong:
  assumes v: "trim username \<noteq> []" "3 \<le> length pw"
    and e: "getUser ls (trim username) = Answer (Json (JObject u))"
    and p: "u (ascii ''password'') \<noteq> Some (JString (simpleHash pw))"
  shows "login now ls username pw =
           Answer (\<lparr>success = False, message = WrongPassword, isNewUser = None\<rparr>, ls)"
proof -
  have "verifyPassword ls (trim username) pw = Answer False"
    using p by (auto simp: verifyPassword_def e names split: option.splits)
  then show ?thesis by (simp add: login_valid [OF v] e)
qed

lemma login_not_a_user:
  assumes v: "trim username \<noteq> []" "3 \<le> length pw"
    and e: "getUser ls (trim username) = Answer x" "truthy x" "\<forall>u. x \<noteq> Json (JObject u)"
  shows "login now ls username pw =
           Answer (\<lparr>success = False, message = WrongPassword, isNewUser = None\<rparr>, ls)"
proof -
  have "readProperty x (ascii ''password'') = Answer Undef"
    using e(2,3) names(3) by (cases x rule: truthy.cases) simp_all
  then have "verifyPassword ls (trim username) pw = Answer False"
    by (simp add: verifyPassword_def e)
  then show ?thesis by (simp add: login_valid [OF v] e)
qed

lemma login_existing_right:
  assumes v: "trim username \<noteq> []" "3 \<le> length pw"
    and e: "getUser ls (trim username) = Answer (Json (JObject u))"
    and p: "u (ascii ''password'') = Some (JString (simpleHash pw))"
  shows "\<exists>ls'. login now ls username pw =
             Answer (\<lparr>success = True, message = LoginSucceeded, isNewUser = Some False\<rparr>, ls') \<and>
           getUser ls' (trim username) =
             Answer (Json (reparse (JObject (u(ascii ''lastLogin'' \<mapsto> JString now))))) \<and>
           getProperty (getData ls') (ascii ''currentUser'') =
             Answer (Json (JString (trim username))) \<and>
           wellShaped ls'"
proof -
  let ?t = "trim username"
  let ?u = "JObject (u(ascii ''lastLogin'' \<mapsto> JString now))"
  from getUser_object [OF e] obtain g f where d: "getData ls = JObject g"
    "g (ascii ''users'') = Some (JObject f)" and ft: "f ?t = Some (JObject u)" by blast
  have vp: "verifyPassword ls ?t pw = Answer True"
    using p by (simp add: verifyPassword_def e names)
  let ?ls1 = "Some (reparse (JObject (g(ascii ''users'' \<mapsto> JObject (f(?t \<mapsto> ?u))))))"
  have ul: "updateLoginTime now ls ?t = Answer ?ls1"
    using d ft by (simp add: updateLoginTime_def Let_def saveData_def)
  let ?G = "(map_option reparse \<circ> g(ascii ''users'' \<mapsto> JObject (f(?t \<mapsto> ?u))))
                     (ascii ''currentUser'' \<mapsto> JString ?t)"
  let ?ls' = "Some (reparse (JObject ?G))"
  have sc: "setCurrentUser ?ls1 (Some ?t) = Answer ?ls'"
    by (simp add: setCurrentUser_def getData_def saveData_def Let_def)
  have l: "login now ls username pw =
             Answer (\<lparr>success = True, message = LoginSucceeded, isNewUser = Some False\<rparr>, ?ls')"
    by (simp only: login_valid [OF v] e vp ul sc thenDo.simps truthy.simps if_True)
  have gd: "getData ?ls' = JObject (map_option reparse \<circ> ?G)"
    by (simp add: getData_def)
  have us: "(map_option reparse \<circ> ?G) (ascii ''users'') =
            Some (JObject (map_option reparse \<circ> (map_option reparse \<circ> f(?t \<mapsto> ?u))))"
    by (simp add: names)
  have 1: "getUser ?ls' ?t = Answer (Json (reparse ?u))"
    by (subst getUser_shaped [OF gd us]) (simp add: reparse_idem [of ?u, simplified])
  have 2: "getProperty (getData ?ls') (ascii ''currentUser'') = Answer (Json (JString ?t))"
    by (subst gd) simp
  have 3: "wellShaped ?ls'" unfolding wellShaped_iff using gd us by blast
  from l 1 2 3 show ?thesis by blast
qed

lemma login_answers:
  assumes "wellShaped ls"
  shows "\<exists>res ls'. login now ls username pw = Answer (res, ls') \<and> wellShaped ls'"
proof -
  let ?t = "trim username"
  from assms obtain g f where d: "getData ls = JObject g" "g (ascii ''users'') = Some (JObject f)"
    by (auto simp: wellShaped_iff)
  consider "?t = []" | "?t \<noteq> []" "length pw < 3" | "?t \<noteq> []" "3 \<le> length pw"
    by linarith
  then show ?thesis
  proof cases
    case 1
    with login_no_username assms show ?thesis by blast
  next
    case 2
    with login_short_password assms show ?thesis by blast
  next
    case 3
    from getUser_shaped [OF d, of ?t] obtain x where x: "getUser ls ?t = Answer x" by blast
    show ?thesis
    proof (cases "truthy x")
      case False
      with x getUser_shaped [OF d, of ?t] have "getUser ls ?t = Answer (Json JNull)"
        by (auto split: option.splits if_splits)
      from login_registers [OF d 3 this] show ?thesis by blast
    next
      case True
      show ?thesis
      proof (cases "\<exists>u. x = Json (JObject u)")
        case False
        then have "\<forall>u. x \<noteq> Json (JObject u)" by blast
        from login_not_a_user [OF 3 x True this] assms show ?thesis by blast
      next
        case T: True
        then obtain u where u: "x = Json (JObject u)" by blast
        show ?thesis
        proof (cases "u (ascii ''password'') = Some (JString (simpleHash pw))")
          case True
          from login_existing_right [OF 3 x [unfolded u] True] show ?thesis by blast
        next
          case False
          from login_existing_wrong [OF 3 x [unfolded u] False] assms show ?thesis by blast
        qed
      qed
    qed
  qed
qed

lemma trim_demo:
  "trim (ascii ''alice'') = ascii ''alice''" "trim (ascii '' alice '') = ascii ''alice''"
  "trim (ascii ''   '') = []" "trim (ascii ''constructor'') = ascii ''constructor''"
  by (simp_all add: trim_def ascii_def isWhiteSpace_def)

lemma hash_demo:
  "simpleHash (ascii ''abc'') = ascii ''17862''" "simpleHash (ascii ''abd'') = ascii ''17863''"
  "simpleHash (ascii ''AaA'') = ascii ''10001''" "simpleHash (ascii ''BBA'') = ascii ''10001''"
  by (simp_all add: simpleHash_def ascii_def toString16_def hexDigit_def)

lemma getData_demo:
  "getData None = JObject [ascii ''users'' \<mapsto> JObject Map.empty, ascii ''currentUser'' \<mapsto> JNull]"
  "getData demoStored =
     JObject [ascii ''users'' \<mapsto> JObject [ascii ''alice'' \<mapsto> newUser demoNow (ascii ''abc'')],
              ascii ''currentUser'' \<mapsto> JString (ascii ''alice'')]"
  "getData demoStoredAaA =
     JObject [ascii ''users'' \<mapsto> JObject [ascii ''alice'' \<mapsto> newUser demoNow (ascii ''AaA'')],
              ascii ''currentUser'' \<mapsto> JString (ascii ''alice'')]"
  by (simp_all add: getData_def getDefaultData_def demoStored_def demoStoredAaA_def)

lemma users_demo:
  "[ascii ''users'' \<mapsto> x, ascii ''currentUser'' \<mapsto> y] (ascii ''users'') = Some x"
  by (simp add: names)

lemma getUser_demo:
  "getUser None (ascii ''alice'') = Answer (Json JNull)"
  "getUser None (ascii ''constructor'') = Answer Native"
  "getUser demoStored (ascii ''alice'') = Answer (Json (newUser demoNow (ascii ''abc'')))"
  "getUser demoStoredAaA (ascii ''alice'') = Answer (Json (newUser demoNow (ascii ''AaA'')))"
  by (simp_all add: getUser_shaped [OF getData_demo(1) users_demo]
      getUser_shaped [OF getData_demo(2) users_demo] getUser_shaped [OF getData_demo(3) users_demo],
      simp_all add: objectPrototype_def ascii_def newUser_def)

lemma wellShaped_demo: "wellShaped demoStored" "wellShaped demoStoredAaA"
  by (simp_all add: wellShaped_def getData_demo names)

lemma login_demo_register:
  "login demoNow None (ascii '' alice '') (ascii ''abc'') =
     Answer (\<lparr>success = True, message = Registered, isNewUser = Some True\<rparr>, demoStored)"
  "login demoNow None (ascii ''alice'') (ascii ''AaA'') =
     Answer (\<lparr>success = True, message = Registered, isNewUser = Some True\<rparr>, demoStoredAaA)"
proof -
  have v: "ascii ''alice'' \<noteq> []" "3 \<le> length (ascii ''abc'')" "3 \<le> length (ascii ''AaA'')"
    by (simp_all add: ascii_def)
  have np: "ascii ''alice'' \<noteq> ascii ''__proto__''" by (simp add: ascii_def)
  have c: "createUser demoNow None (ascii ''alice'') pw =
             Answer (newUser demoNow pw,
               Some (JObject [ascii ''users'' \<mapsto> JObject [ascii ''alice'' \<mapsto> newUser demoNow pw],
                              ascii ''currentUser'' \<mapsto> JNull]))" for pw
  proof -
    have w: "writeProperty (Json (JObject Map.empty)) (ascii ''alice'') (newUser demoNow pw) =
               Answer (JObject [ascii ''alice'' \<mapsto> newUser demoNow pw])"
      using np by simp
    have m: "[ascii ''users'' \<mapsto> JObject Map.empty, ascii ''currentUser'' \<mapsto> JNull]
               (ascii ''users'' \<mapsto> JObject [ascii ''alice'' \<mapsto> newUser demoNow pw]) =
             [ascii ''users'' \<mapsto> JObject [ascii ''alice'' \<mapsto> newUser demoNow pw],
              ascii ''currentUser'' \<mapsto> JNull]"
      by (rule ext) (simp add: names)
    have r: "reparse (JObject [ascii ''users'' \<mapsto> JObject [ascii ''alice'' \<mapsto> newUser demoNow pw],
              ascii ''currentUser'' \<mapsto> JNull]) =
             JObject [ascii ''users'' \<mapsto> JObject [ascii ''alice'' \<mapsto> newUser demoNow pw],
              ascii ''currentUser'' \<mapsto> JNull]"
      by (simp add: map_option_comp_upd map_option_comp_empty reparse_newUser)
    show ?thesis
      by (simp only: createUser_def Let_def saveData_def getData_demo(1) getProperty.simps
          users_demo option.case thenDo.simps w changed.simps m r)
  qed
  have s: "setCurrentUser (Some (JObject [ascii ''users'' \<mapsto> JObject [ascii ''alice'' \<mapsto> newUser demoNow pw],
                              ascii ''currentUser'' \<mapsto> JNull])) (Some (ascii ''alice'')) =
           Answer (Some (JObject [ascii ''users'' \<mapsto> JObject [ascii ''alice'' \<mapsto> newUser demoNow pw],
                              ascii ''currentUser'' \<mapsto> JString (ascii ''alice'')]))" for pw
  proof -
    have m: "[ascii ''users'' \<mapsto> JObject [ascii ''alice'' \<mapsto> newUser demoNow pw],
              ascii ''currentUser'' \<mapsto> JNull](ascii ''currentUser'' \<mapsto> JString (ascii ''alice'')) =
             [ascii ''users'' \<mapsto> JObject [ascii ''alice'' \<mapsto> newUser demoNow pw],
              ascii ''currentUser'' \<mapsto> JString (ascii ''alice'')]"
      by (rule ext) (simp add: names)
    have r: "reparse (JObject [ascii ''users'' \<mapsto> JObject [ascii ''alice'' \<mapsto> newUser demoNow pw],
              ascii ''currentUser'' \<mapsto> JString (ascii ''alice'')]) =
             JObject [ascii ''users'' \<mapsto> JObject [ascii ''alice'' \<mapsto> newUser demoNow pw],
              ascii ''currentUser'' \<mapsto> JString (ascii ''alice'')]"
      by (simp add: map_option_comp_upd map_option_comp_empty reparse_newUser)
    show ?thesis
      by (simp only: setCurrentUser_def Let_def saveData_def getData_def option.case json.case m r)
  qed
  show "login demoNow None (ascii '' alice '') (ascii ''abc'') =
     Answer (\<lparr>success = True, message = Registered, isNewUser = Some True\<rparr>, demoStored)"
    by (subst login_valid) (simp_all add: trim_demo v getUser_demo c s demoStored_def)
  show "login demoNow None (ascii ''alice'') (ascii ''AaA'') =
     Answer (\<lparr>success = True, message = Registered, isNewUser = Some True\<rparr>, demoStoredAaA)"
    by (subst login_valid) (simp_all add: trim_demo v getUser_demo c s demoStoredAaA_def)
qed

lemma login_demo_misshapen:
  "login demoNow (Some JNull) (ascii ''alice'') (ascii ''abc'') = TypeError"
  "login demoNow (Some (JObject Map.empty)) (ascii ''alice'') (ascii ''abc'') = TypeError"
  "login demoNow (Some (JNumber 123)) (ascii ''alice'') (ascii ''abc'') = TypeError"
proof -
  have v: "trim (ascii ''alice'') \<noteq> []" "3 \<le> length (ascii ''abc'')"
    by (simp_all add: trim_demo, simp_all add: ascii_def)
  show "login demoNow (Some JNull) (ascii ''alice'') (ascii ''abc'') = TypeError"
    "login demoNow (Some (JObject Map.empty)) (ascii ''alice'') (ascii ''abc'') = TypeError"
    "login demoNow (Some (JNumber 123)) (ascii ''alice'') (ascii ''abc'') = TypeError"
    by (simp_all add: login_valid [OF v] getUser_def getData_def names)
qed

section \<open>The claims\<close>

text \<open>
  C10. When \<open>update\<close> is called while the engine is not playing (a stray tick after a
  pause, a game over or a reset), it returns at once: the whole state is what it was,
  the snake, the food, both directions, the score, the speed and the game state, and the
  log of effects has no new entry, so no callback was called and nothing was rendered.
\<close>

theorem update_outside_playing_changes_nothing:
  "gameState s \<noteq> PLAYING \<Longrightarrow> update s = Returns s"
  by (simp add: update_def)

theorem update_outside_playing_witness:
  "gameState demoIdle \<noteq> PLAYING \<and> update demoIdle = Returns demoIdle"
proof -
  have h: "gameState demoIdle \<noteq> PLAYING" by (simp add: demoIdle_def)
  from h update_outside_playing_changes_nothing [OF h] show ?thesis by simp
qed

text \<open>
  C3. In a state of a run where the engine is playing and the new head (the head plus the
  step of the direction the tick commits) is outside the grid or on a segment of the
  snake, the tail included, \<open>update\<close> returns with the game over: the handle is
  dropped and no timer is live, so that a further tick does nothing; the game-over
  callback, when one is registered, is called with the score, and a render follows; the
  snake, the score, the speed and the food are what they were.
\<close>

theorem collision_ends_game:
  assumes "reachable s" and "gameState s = PLAYING" and "newHeadOf s = Some h"
    and "\<not> inGrid h \<or> h \<in> set (snake s)"
  shows "\<exists>s'. update s = Returns s' \<and> gameState s' = GAME_OVER \<and>
           gameLoop s' = None \<and> timers s' = [] \<and> step Tick s' = Returns s' \<and>
           effects s' = effects s @ (if onGameOver s then [GameOverCall (score s)] else []) @ [Render] \<and>
           snake s' = snake s \<and> score s' = score s \<and> speed s' = speed s \<and> food s' = food s"
proof -
  from assms(4) have c: "checkCollision h s" by (simp add: checkCollision_iff)
  note u = update_collision [OF assms(2,3) c]
  note E = endGame_fields [of "s\<lparr>direction := nextDirection s\<rparr>"]
  from reachable_invariant [OF assms(1)] have inv: "invariant s" .
  have t: "timers (endGame (s\<lparr>direction := nextDirection s\<rparr>)) = []"
    using E inv by (auto simp: invariant_iff)
  show ?thesis using u E t by simp
qed

theorem collision_ends_game_witness:
  "reachable demoAtWall \<and> gameState demoAtWall = PLAYING \<and> newHeadOf demoAtWall = Some (20, 10) \<and>
   \<not> inGrid (20, 10) \<and>
   (\<exists>s'. update demoAtWall = Returns s' \<and> gameState s' = GAME_OVER \<and>
           gameLoop s' = None \<and> timers s' = [] \<and> step Tick s' = Returns s' \<and>
           effects s' = effects demoAtWall @ [GameOverCall 20, Render] \<and>
           snake s' = snake demoAtWall \<and> score s' = 20 \<and> speed s' = 146 \<and> food s' = Some (5, 5))"
proof -
  have a: "gameState demoAtWall = PLAYING" by (simp add: demoAtWall_def)
  have b: "newHeadOf demoAtWall = Some (20, 10)" by (simp add: demoAtWall_def newHeadOf_def)
  have c: "\<not> inGrid (20, 10)" by (simp add: inGrid_def gridSize_def)
  then have d: "\<not> inGrid (20, 10) \<or> (20, 10) \<in> set (snake demoAtWall)" ..
  have e: "onGameOver demoAtWall" "score demoAtWall = 20" "speed demoAtWall = 146"
    "food demoAtWall = Some (5, 5)" by (simp_all add: demoAtWall_def)
  from collision_ends_game [OF reachable_demoAtWall a b d] e reachable_demoAtWall a b c
  show ?thesis by simp
qed

text \<open>
  C5. In a state of a run where the engine is playing and the new head, the head plus the
  unit step of the direction the tick commits, collides with nothing: if the food is not
  at the new head, \<open>update\<close> returns, the new head is put in front, the tail segment is
  removed and the length is what it was; if the food is at the new head, \<open>update\<close>
  does not throw, it returns as soon as one random candidate is off the snake, and when
  it returns the new head is in front of the whole old snake, so the length is one more.
\<close>

theorem tick_moves_snake:
  assumes "reachable s" and "gameState s = PLAYING" and "snake s = head # rest"
    and "h = (fst head + fst (delta (nextDirection s)), snd head + snd (delta (nextDirection s)))"
    and "\<not> checkCollision h s"
  shows "(food s \<noteq> Some h \<longrightarrow>
           (\<exists>s'. update s = Returns s' \<and> direction s' = nextDirection s \<and>
                 snake s' = h # butlast (snake s) \<and> length (snake s') = length (snake s))) \<and>
         (food s = Some h \<longrightarrow>
           update s \<noteq> Throws \<and>
           (\<forall>s'. update s = Returns s' \<longrightarrow>
                 direction s' = nextDirection s \<and> snake s' = h # snake s \<and>
                 length (snake s') = length (snake s) + 1) \<and>
           ((\<exists>k. candidate (random s) (drawn s + 2 * k) \<notin> set (h # snake s)) \<longrightarrow>
              (\<exists>s'. update s = Returns s')))"
proof -
  have nh: "newHeadOf s = Some h" using assms(3,4) by (simp add: newHeadOf_def)
  from reachable_invariant [OF assms(1)] obtain f where f: "food s = Some f"
    by (auto simp: invariant_iff)
  have move: "food s \<noteq> Some h \<longrightarrow>
           (\<exists>s'. update s = Returns s' \<and> direction s' = nextDirection s \<and>
                 snake s' = h # butlast (snake s) \<and> length (snake s') = length (snake s))"
  proof
    assume "food s \<noteq> Some h"
    with f have "f \<noteq> h" by simp
    from update_move [OF assms(2) nh assms(5) f this] assms(3)
    show "\<exists>s'. update s = Returns s' \<and> direction s' = nextDirection s \<and>
                 snake s' = h # butlast (snake s) \<and> length (snake s') = length (snake s)"
      by (simp add: render_def)
  qed
  have eat: "food s = Some h \<longrightarrow>
           update s \<noteq> Throws \<and>
           (\<forall>s'. update s = Returns s' \<longrightarrow>
                 direction s' = nextDirection s \<and> snake s' = h # snake s \<and>
                 length (snake s') = length (snake s) + 1) \<and>
           ((\<exists>k. candidate (random s) (drawn s + 2 * k) \<notin> set (h # snake s)) \<longrightarrow>
              (\<exists>s'. update s = Returns s'))"
  proof (intro impI conjI allI)
    assume fh: "food s = Some h"
    show "update s \<noteq> Throws" by (rule update_eat_not_Throws [OF assms(2) nh assms(5) fh])
    show "\<exists>s'. update s = Returns s'"
      if "\<exists>k. candidate (random s) (drawn s + 2 * k) \<notin> set (h # snake s)"
      using that update_eat_returns_if [OF assms(2) nh assms(5) fh] by blast
    fix s' assume u: "update s = Returns s'"
    from update_eat_Returns [OF assms(2) nh assms(5) fh u] afterEating_fields [of h s]
    show "direction s' = nextDirection s" "snake s' = h # snake s"
      "length (snake s') = length (snake s) + 1"
      by (auto simp: render_def)
  qed
  from move eat show ?thesis ..
qed

text \<open>The two cases, in the example run: the tick after the start eats, the next one moves.\<close>

theorem tick_moves_snake_witness:
  "reachable demoAte \<and> gameState demoAte = PLAYING \<and>
   snake demoAte = (11, 10) # [(10, 10), (9, 10), (8, 10)] \<and>
   \<not> checkCollision (12, 10) demoAte \<and> food demoAte \<noteq> Some (12, 10) \<and>
   (\<exists>s'. update demoAte = Returns s' \<and> direction s' = RIGHT \<and>
         snake s' = [(12, 10), (11, 10), (10, 10), (9, 10)] \<and>
         length (snake s') = length (snake demoAte)) \<and>
   reachable demoPlaying \<and> gameState demoPlaying = PLAYING \<and>
   snake demoPlaying = (10, 10) # [(9, 10), (8, 10)] \<and>
   \<not> checkCollision (11, 10) demoPlaying \<and> food demoPlaying = Some (11, 10) \<and>
   update demoPlaying = Returns demoAte \<and>
   snake demoAte = (11, 10) # snake demoPlaying \<and> length (snake demoAte) = length (snake demoPlaying) + 1"
proof -
  have a: "gameState demoAte = PLAYING" "snake demoAte = (11, 10) # [(10, 10), (9, 10), (8, 10)]"
    "(12, 10) = (fst (11, 10) + fst (delta (nextDirection demoAte)),
                 snd (11, 10) + snd (delta (nextDirection demoAte)))"
    "\<not> checkCollision (12, 10) demoAte" "food demoAte \<noteq> Some (12, 10)"
    by (simp_all add: demoAte_def checkCollision_def gridSize_def)
  have b: "gameState demoPlaying = PLAYING" "snake demoPlaying = (10, 10) # [(9, 10), (8, 10)]"
    "(11, 10) = (fst (10, 10) + fst (delta (nextDirection demoPlaying)),
                 snd (10, 10) + snd (delta (nextDirection demoPlaying)))"
    "\<not> checkCollision (11, 10) demoPlaying" "food demoPlaying = Some (11, 10)"
    by (simp_all add: demoPlaying_def checkCollision_def gridSize_def)
  have c: "nextDirection demoAte = RIGHT" by (simp add: demoAte_def)
  from tick_moves_snake [OF reachable_demoAte a(1-4)] a(5)
  have 1: "\<exists>s'. update demoAte = Returns s' \<and> direction s' = RIGHT \<and>
         snake s' = [(12, 10), (11, 10), (10, 10), (9, 10)] \<and>
         length (snake s') = length (snake demoAte)"
    by (simp add: a(2) c)
  from tick_moves_snake [OF reachable_demoPlaying b(1-4)] b(5) tick_demo
  have 2: "snake demoAte = (11, 10) # snake demoPlaying \<and>
           length (snake demoAte) = length (snake demoPlaying) + 1"
    by simp
  from 1 2 a b reachable_demoAte reachable_demoPlaying tick_demo show ?thesis by simp
qed

text \<open>
  C6. With every result of \<open>Math.random()\<close> a binary64 number from 0 up to, not
  including, 1, and the product with the grid size rounded as binary64 rounds it before
  \<open>Math.floor\<close>, \<open>spawnFood\<close> never
  throws, returns as soon as one of the candidates it draws is off the snake, and when it
  returns the snake is unchanged and the food is a cell of the grid on no segment of the
  snake. So it is after \<open>reset\<close> and after an eating tick, for the snake they leave.
\<close>

theorem food_spawns_on_free_cell:
  assumes "unitSamples (random s)"
  shows "spawnFood s \<noteq> Throws \<and>
         ((\<exists>k. candidate (random s) (drawn s + 2 * k) \<notin> set (snake s)) \<longrightarrow>
            (\<exists>s'. spawnFood s = Returns s')) \<and>
         (\<forall>s'. spawnFood s = Returns s' \<longrightarrow>
            snake s' = snake s \<and> (\<exists>f. food s' = Some f \<and> inGrid f \<and> f \<notin> set (snake s))) \<and>
         (\<forall>s'. reset s = Returns s' \<longrightarrow>
            (\<exists>f. food s' = Some f \<and> inGrid f \<and> f \<notin> set (snake s'))) \<and>
         (\<forall>s'. eats s \<and> update s = Returns s' \<longrightarrow>
            (\<exists>f. food s' = Some f \<and> inGrid f \<and> f \<notin> set (snake s')))"
proof (intro conjI allI impI)
  show "spawnFood s \<noteq> Throws" by (rule spawnFood_not_Throws)
next
  assume "\<exists>k. candidate (random s) (drawn s + 2 * k) \<notin> set (snake s)"
  then obtain k where "\<not> onSnake (snake s) (candidate (random s) (drawn s + 2 * k))"
    by (auto simp: onSnake_set)
  then show "\<exists>s'. spawnFood s = Returns s'" by (rule spawnFood_returns_if)
next
  fix s' assume sp: "spawnFood s = Returns s'"
  from spawnFood_foodFree [OF sp assms]
  show "snake s' = snake s" "\<exists>f. food s' = Some f \<and> inGrid f \<and> f \<notin> set (snake s)"
    by (auto simp: foodFree_iff)
next
  fix s' assume r: "reset s = Returns s'"
  from reset_Returns [OF r] obtain k where
    "food s' = Some (candidate (random s) (drawn s + 2 * k))"
    "candidate (random s) (drawn s + 2 * k) \<notin> set (snake s')" by blast
  with candidate_inGrid [OF assms]
  show "\<exists>f. food s' = Some f \<and> inGrid f \<and> f \<notin> set (snake s')" by blast
next
  fix s' assume "eats s \<and> update s = Returns s'"
  then have e: "eats s" and u: "update s = Returns s'" by simp_all
  from eats_newHead [OF e] obtain h where h: "gameState s = PLAYING" "newHeadOf s = Some h"
    "\<not> checkCollision h s" "food s = Some h" by blast
  from update_eat_Returns [OF h u] obtain k where
    s': "s' = render ((afterEating h s)\<lparr>food := Some (candidate (random s) (drawn s + 2 * k)),
                     drawn := drawn s + 2 * k + 2\<rparr>)"
    and free: "candidate (random s) (drawn s + 2 * k) \<notin> set (h # snake s)" by blast
  have "food s' = Some (candidate (random s) (drawn s + 2 * k))" "snake s' = h # snake s"
    using afterEating_fields [of h s] by (simp_all add: s' render_def)
  with free candidate_inGrid [OF assms]
  show "\<exists>f. food s' = Some f \<and> inGrid f \<and> f \<notin> set (snake s')" by auto
qed

text \<open>A spawn whose first candidate is on the snake and whose second is free.\<close>

theorem food_spawns_on_free_cell_witness:
  "unitSamples (random (demoAte\<lparr>snake := (12, 10) # snake demoAte\<rparr>)) \<and>
   candidate demoRandom 6 = (12, 10) \<and> candidate demoRandom 8 = (5, 5) \<and>
   spawnFood (demoAte\<lparr>snake := (12, 10) # snake demoAte\<rparr>) =
     Returns (demoAte\<lparr>snake := (12, 10) # snake demoAte, food := Some (5, 5), drawn := 10\<rparr>) \<and>
   inGrid (5, 5) \<and> (5, 5) \<notin> set ((12, 10) # snake demoAte)"
proof -
  let ?s = "demoAte\<lparr>snake := (12, 10) # snake demoAte\<rparr>"
  have u: "unitSamples (random ?s)" by (simp add: demoAte_def unitSamples_demoRandom)
  have e: "spawnFood ?s = Returns (?s\<lparr>food := Some (5, 5), drawn := 10\<rparr>)"
    by (simp add: spawnFood_def demoAte_def spawnFood_loop_hit spawnFood_loop_miss demo_candidates)
  from food_spawns_on_free_cell [OF u] e
  have "\<exists>f. food (?s\<lparr>food := Some (5, 5), drawn := 10\<rparr>) = Some f \<and> inGrid f \<and> f \<notin> set (snake ?s)"
    by blast
  with u e show ?thesis by (simp add: demo_candidates)
qed

text \<open>
  C7. In every state of a run the speed is between the floor, 50, and the initial value,
  150, which every reset restores. An action that does not reset never raises the speed,
  and no run without a reset does; an eating tick lowers it by 2 when it is above the
  floor and leaves it otherwise.
\<close>

theorem speed_never_rises_and_keeps_its_floor:
  assumes "reachable s"
  shows "initialSpeed = 150 \<and> speedIncrement = 2 \<and> minSpeed = 50 \<and>
         minSpeed \<le> speed s \<and> speed s \<le> initialSpeed \<and>
         (\<forall>a s'. step a s = Returns s' \<and> resets a s \<longrightarrow> speed s' = initialSpeed) \<and>
         (\<forall>a s'. step a s = Returns s' \<and> \<not> resets a s \<longrightarrow> speed s' \<le> speed s) \<and>
         (\<forall>acts s'. resetFree acts s \<and> run acts s = Returns s' \<longrightarrow> speed s' \<le> speed s) \<and>
         (\<forall>s'. eats s \<and> update s = Returns s' \<longrightarrow>
            speed s' = (if minSpeed < speed s then speed s - speedIncrement else speed s))"
proof -
  from reachable_invariant [OF assms] have "50 \<le> speed s" "speed s \<le> 150"
    by (simp_all add: invariant_iff)
  moreover have "\<forall>a s'. step a s = Returns s' \<and> resets a s \<longrightarrow> speed s' = 150"
    using step_resets_score by blast
  moreover have "\<forall>a s'. step a s = Returns s' \<and> \<not> resets a s \<longrightarrow> speed s' \<le> speed s"
  proof (intro allI impI)
    fix a s' assume "step a s = Returns s' \<and> \<not> resets a s"
    then have "step a s = Returns s'" "\<not> resets a s" by simp_all
    from step_keeps [OF this] show "speed s' \<le> speed s" by (simp split: if_splits)
  qed
  moreover have "\<forall>acts s'. resetFree acts s \<and> run acts s = Returns s' \<longrightarrow> speed s' \<le> speed s"
    using run_resetFree_speed by blast
  moreover have "\<forall>s'. eats s \<and> update s = Returns s' \<longrightarrow>
            speed s' = (if 50 < speed s then speed s - 2 else speed s)"
  proof (intro allI impI)
    fix s' assume "eats s \<and> update s = Returns s'"
    then have e: "eats s" and u: "update s = Returns s'" by simp_all
    from update_speed [OF u] e show "speed s' = (if 50 < speed s then speed s - 2 else speed s)"
      by simp
  qed
  ultimately show ?thesis by (simp add: minSpeed_def initialSpeed_def speedIncrement_def)
qed

text \<open>The example run: 150 at the start, 148 after the first food, 146 at the wall.\<close>

theorem speed_witness:
  "reachable demoPlaying \<and> speed demoPlaying = 150 \<and> eats demoPlaying \<and>
   update demoPlaying = Returns demoAte \<and> speed demoAte = 148 \<and>
   resetFree [Tick, Tick, Tick, Tick, Tick, Tick, Tick, Tick] demoAte \<and>
   run [Tick, Tick, Tick, Tick, Tick, Tick, Tick, Tick] demoAte = Returns demoAtWall \<and>
   speed demoAtWall = 146 \<and> speed demoAtWall \<le> speed demoAte \<and> minSpeed \<le> speed demoAtWall"
proof -
  have e: "eats demoPlaying"
    by (simp add: eats_def newHeadOf_def demoPlaying_def checkCollision_def gridSize_def)
  have rf: "resetFree [Tick, Tick, Tick, Tick, Tick, Tick, Tick, Tick] demoAte"
    by (simp add: eval_defs spawnFood_loop_hit spawnFood_loop_miss demo_candidates demoAte_def)
  have v: "speed demoPlaying = 150" "speed demoAte = 148" "speed demoAtWall = 146"
    by (simp_all add: demoPlaying_def demoAte_def demoAtWall_def)
  from speed_never_rises_and_keeps_its_floor [OF reachable_demoPlaying] e tick_demo
  have 1: "speed demoAte = (if minSpeed < speed demoPlaying then speed demoPlaying - speedIncrement
                            else speed demoPlaying)" by blast
  from speed_never_rises_and_keeps_its_floor [OF reachable_demoAte] rf run_demo_wall
  have 2: "speed demoAtWall \<le> speed demoAte" by blast
  from speed_never_rises_and_keeps_its_floor [OF reachable_demoAtWall]
  have 3: "minSpeed \<le> speed demoAtWall" by blast
  from 1 2 3 e rf v reachable_demoPlaying tick_demo run_demo_wall show ?thesis by simp
qed

text \<open>
  C8. After any run that begins with \<open>init\<close>, \<open>getScore\<close> is 10 times the number of
  eating ticks since the last reset of the run: a multiple of 10 that is not negative.
  It is 0 after \<open>reset\<close>, and an eating tick adds 10 and, when the score-update callback
  is registered, calls it with the new score before the render.
\<close>

theorem score_is_ten_per_eaten_food:
  assumes "run (Init scoreCb overCb # acts) (engine0 r) = Returns s"
  shows "getScore s = 10 * int (eaten (Init scoreCb overCb # acts) (engine0 r) 0) \<and>
         (\<forall>s'. reset s = Returns s' \<longrightarrow> getScore s' = 0) \<and>
         (\<forall>s'. eats s \<and> update s = Returns s' \<longrightarrow>
            getScore s' = getScore s + 10 \<and>
            effects s' = effects s @ (if onScoreUpdate s then [ScoreUpdate (getScore s')] else []) @ [Render])"
proof -
  have "score (engine0 r) = 10 * int 0" by (simp add: engine0_def)
  from run_score_eaten [OF this assms]
  have 1: "getScore s = 10 * int (eaten (Init scoreCb overCb # acts) (engine0 r) 0)"
    by (simp add: getScore_def)
  have 2: "\<forall>s'. reset s = Returns s' \<longrightarrow> getScore s' = 0"
    using reset_Returns by (auto simp: getScore_def)
  have 3: "\<forall>s'. eats s \<and> update s = Returns s' \<longrightarrow>
            getScore s' = getScore s + 10 \<and>
            effects s' = effects s @ (if onScoreUpdate s then [ScoreUpdate (getScore s')] else []) @ [Render]"
  proof (intro allI impI)
    fix s' assume "eats s \<and> update s = Returns s'"
    then have e: "eats s" and u: "update s = Returns s'" by simp_all
    from update_score [OF u] e update_eat_effects [OF e u]
    show "getScore s' = getScore s + 10 \<and>
            effects s' = effects s @ (if onScoreUpdate s then [ScoreUpdate (getScore s')] else []) @ [Render]"
      by (simp add: getScore_def)
  qed
  from 1 2 3 show ?thesis by blast
qed

text \<open>The example run eats twice after its last reset, and its score is 20.\<close>

theorem score_witness:
  "run [Init True True, Start, Tick, Tick, Tick, Tick, Tick, Tick, Tick, Tick, Tick]
     (engine0 demoRandom) = Returns demoAtWall \<and>
   eaten [Init True True, Start, Tick, Tick, Tick, Tick, Tick, Tick, Tick, Tick, Tick]
     (engine0 demoRandom) 0 = 2 \<and>
   getScore demoAtWall = 20"
proof -
  have st: "step (Init True True) (engine0 demoRandom) = Returns demoIdle"
    "step Start demoIdle = Returns demoPlaying" "step Tick demoPlaying = Returns demoAte"
    by (simp_all add: init_demo start_demo tick_demo, simp add: demoPlaying_def)
  have r: "run [Init True True, Start, Tick, Tick, Tick, Tick, Tick, Tick, Tick, Tick, Tick]
     (engine0 demoRandom) = Returns demoAtWall"
    using st run_demo_wall by simp
  have e0: "resets Start demoIdle" "eats demoPlaying" "timers demoPlaying \<noteq> []"
    by (simp_all add: demoIdle_def demoPlaying_def eats_def newHeadOf_def checkCollision_def gridSize_def)
  have e1: "eaten [Tick, Tick, Tick, Tick, Tick, Tick, Tick, Tick] demoAte 1 = 2"
    by (simp add: eval_defs eats_def newHeadOf_def spawnFood_loop_hit spawnFood_loop_miss
        demo_candidates demoAte_def)
  have e: "eaten [Init True True, Start, Tick, Tick, Tick, Tick, Tick, Tick, Tick, Tick, Tick]
     (engine0 demoRandom) 0 = 2"
    using st e0 e1 by simp
  from score_is_ten_per_eaten_food [OF r] e have "getScore demoAtWall = 20" by simp
  with r e show ?thesis by simp
qed

text \<open>
  C4. From a state of a run with committed direction \<open>d\<close>, any sequence of key events
  other than the space bar returns, leaves the committed direction \<open>d\<close> and a pending
  direction that is not the reverse of \<open>d\<close>, so that the direction the next tick
  commits is not the reverse of \<open>d\<close>: each key is checked against \<open>d\<close>, whatever is
  pending.
\<close>

theorem no_reversal_between_ticks:
  assumes "reachable s" and "''Space'' \<notin> set keys"
  shows "\<exists>s1. run (map KeyDown keys) s = Returns s1 \<and> direction s1 = direction s \<and>
              nextDirection s1 \<noteq> opposite (direction s) \<and>
              (\<forall>s'. update s1 = Returns s' \<longrightarrow> direction s' \<noteq> opposite (direction s))"
proof -
  from keys_keep_direction [OF assms] obtain s1 where
    r: "run (map KeyDown keys) s = Returns s1" and d: "direction s1 = direction s"
    and re: "reachable s1" by blast
  from reachable_invariant [OF re] d have n: "nextDirection s1 \<noteq> opposite (direction s)"
    by (simp add: invariant_iff)
  have "\<forall>s'. update s1 = Returns s' \<longrightarrow> direction s' \<noteq> opposite (direction s)"
  proof (intro allI impI)
    fix s' assume "update s1 = Returns s'"
    from update_direction [OF this] n d show "direction s' \<noteq> opposite (direction s)"
      by (cases "direction s") (auto split: if_splits)
  qed
  with r d n show ?thesis by blast
qed

text \<open>Moving right: Left alone is ignored; of Up, Left, Down the last accepted, Down, is pending.\<close>

theorem no_reversal_witness:
  "reachable demoPlaying \<and> ''Space'' \<notin> set [''ArrowUp'', ''ArrowLeft'', ''KeyS''] \<and>
   direction demoPlaying = RIGHT \<and>
   run (map KeyDown [''ArrowLeft'']) demoPlaying = Returns demoPlaying \<and>
   run (map KeyDown [''ArrowUp'', ''ArrowLeft'', ''KeyS'']) demoPlaying =
     Returns (demoPlaying\<lparr>nextDirection := DOWN,
                effects := [Render, Render, PreventDefault, PreventDefault]\<rparr>) \<and>
   (\<exists>s1. run (map KeyDown [''ArrowUp'', ''ArrowLeft'', ''KeyS'']) demoPlaying = Returns s1 \<and>
      direction s1 = RIGHT \<and> nextDirection s1 \<noteq> LEFT \<and>
      (\<forall>s'. update s1 = Returns s' \<longrightarrow> direction s' \<noteq> LEFT))"
proof -
  have k: "''Space'' \<notin> set [''ArrowUp'', ''ArrowLeft'', ''KeyS'']" by simp
  have d: "direction demoPlaying = RIGHT" by (simp add: demoPlaying_def)
  have l: "run (map KeyDown [''ArrowLeft'']) demoPlaying = Returns demoPlaying"
    by (simp add: demoPlaying_def handleKeyDown_def keyDirection_def)
  have r: "run (map KeyDown [''ArrowUp'', ''ArrowLeft'', ''KeyS'']) demoPlaying =
     Returns (demoPlaying\<lparr>nextDirection := DOWN,
                effects := [Render, Render, PreventDefault, PreventDefault]\<rparr>)"
    by (simp add: demoPlaying_def handleKeyDown_def keyDirection_def preventDefault_def)
  from no_reversal_between_ticks [OF reachable_demoPlaying k] d
  have "\<exists>s1. run (map KeyDown [''ArrowUp'', ''ArrowLeft'', ''KeyS'']) demoPlaying = Returns s1 \<and>
      direction s1 = RIGHT \<and> nextDirection s1 \<noteq> LEFT \<and>
      (\<forall>s'. update s1 = Returns s' \<longrightarrow> direction s' \<noteq> LEFT)" by simp
  with reachable_demoPlaying k d l r show ?thesis by blast
qed

text \<open>
  The claim C1 as it was written fails: in the state \<open>init\<close> leaves, which is idle,
  \<open>start\<close> draws two more random numbers and moves the food from (12, 10) to (11, 10),
  and renders once more, as \<open>reset\<close> does.
\<close>

theorem start_from_idle_counterexample:
  "reachable demoIdle \<and> gameState demoIdle = IDLE \<and> start demoIdle = Returns demoPlaying \<and>
   food demoIdle = Some (12, 10) \<and> food demoPlaying = Some (11, 10) \<and>
   drawn demoIdle = 2 \<and> drawn demoPlaying = 4 \<and>
   effects demoIdle = [Render] \<and> effects demoPlaying = [Render, Render]"
  using reachable_demoIdle start_demo by (simp add: demoIdle_def demoPlaying_def)

text \<open>
  C1, amended. \<open>start\<close> from Playing returns the state it was given. From Paused it sets
  the state to Playing and starts the timer, without a reset. From Idle, as from GameOver,
  it runs \<open>reset\<close> first: it never throws, returns when \<open>reset\<close> does, and then the
  snake is the initial one, both directions are Right, the score is 0, the speed is the
  initial speed, the food is a candidate drawn anew, one render was added, the state is
  Playing and a timer at the initial speed is live under the handle the engine keeps.
\<close>

theorem start_resets_from_idle_and_game_over:
  "(gameState s = PLAYING \<longrightarrow> start s = Returns s) \<and>
   (gameState s = PAUSED \<longrightarrow> start s = Returns (startTimer (s\<lparr>gameState := PLAYING\<rparr>))) \<and>
   (gameState s = IDLE \<or> gameState s = GAME_OVER \<longrightarrow>
      start s \<noteq> Throws \<and>
      ((\<exists>s1. reset s = Returns s1) \<longrightarrow> (\<exists>s'. start s = Returns s')) \<and>
      (\<forall>s'. start s = Returns s' \<longrightarrow>
         (\<exists>s1. reset s = Returns s1 \<and> s' = startTimer (s1\<lparr>gameState := PLAYING\<rparr>)) \<and>
         snake s' = [(10, 10), (9, 10), (8, 10)] \<and> direction s' = RIGHT \<and>
         nextDirection s' = RIGHT \<and> score s' = 0 \<and> speed s' = initialSpeed \<and>
         (\<exists>k. food s' = Some (candidate (random s) (drawn s + 2 * k)) \<and>
              drawn s' = drawn s + 2 * k + 2) \<and>
         effects s' = effects s @ [Render] \<and>
         gameState s' = PLAYING \<and> gameLoop s' = Some (nextTimer s) \<and>
         (nextTimer s, initialSpeed) \<in> set (timers s')))"
proof (intro conjI impI)
  show "start s = Returns s" if "gameState s = PLAYING" using that by (simp add: start_def)
  show "start s = Returns (startTimer (s\<lparr>gameState := PLAYING\<rparr>))" if "gameState s = PAUSED"
    using that by (simp add: start_def)
next
  assume g: "gameState s = IDLE \<or> gameState s = GAME_OVER"
  then have st: "start s = andThen (reset s) (\<lambda>s1. Returns (startTimer (s1\<lparr>gameState := PLAYING\<rparr>)))"
    by (auto simp: start_def)
  show "start s \<noteq> Throws" using st reset_not_Throws [of s] by (cases "reset s") simp_all
  show "\<exists>s'. start s = Returns s'" if "\<exists>s1. reset s = Returns s1" using that st by auto
  show "\<forall>s'. start s = Returns s' \<longrightarrow>
         (\<exists>s1. reset s = Returns s1 \<and> s' = startTimer (s1\<lparr>gameState := PLAYING\<rparr>)) \<and>
         snake s' = [(10, 10), (9, 10), (8, 10)] \<and> direction s' = RIGHT \<and>
         nextDirection s' = RIGHT \<and> score s' = 0 \<and> speed s' = initialSpeed \<and>
         (\<exists>k. food s' = Some (candidate (random s) (drawn s + 2 * k)) \<and>
              drawn s' = drawn s + 2 * k + 2) \<and>
         effects s' = effects s @ [Render] \<and>
         gameState s' = PLAYING \<and> gameLoop s' = Some (nextTimer s) \<and>
         (nextTimer s, initialSpeed) \<in> set (timers s')"
    using start_Returns_fields [OF g] by blast
qed

text \<open>The example run: \<open>start\<close> in the idle state, then once more while playing.\<close>

theorem start_resets_witness:
  "gameState demoIdle = IDLE \<and> start demoIdle = Returns demoPlaying \<and>
   (\<exists>s1. reset demoIdle = Returns s1 \<and> demoPlaying = startTimer (s1\<lparr>gameState := PLAYING\<rparr>)) \<and>
   score demoPlaying = 0 \<and> speed demoPlaying = initialSpeed \<and>
   effects demoPlaying = effects demoIdle @ [Render] \<and>
   gameState demoPlaying = PLAYING \<and> start demoPlaying = Returns demoPlaying"
proof -
  have g: "gameState demoIdle = IDLE" by (simp add: demoIdle_def)
  then have g': "gameState demoIdle = IDLE \<or> gameState demoIdle = GAME_OVER" ..
  have p: "gameState demoPlaying = PLAYING" by (simp add: demoPlaying_def)
  from start_resets_from_idle_and_game_over [of demoIdle] g' start_demo
  have 1: "(\<exists>s1. reset demoIdle = Returns s1 \<and> demoPlaying = startTimer (s1\<lparr>gameState := PLAYING\<rparr>)) \<and>
   score demoPlaying = 0 \<and> speed demoPlaying = initialSpeed \<and>
   effects demoPlaying = effects demoIdle @ [Render]" by blast
  from start_resets_from_idle_and_game_over [of demoPlaying] p
  have 2: "start demoPlaying = Returns demoPlaying" by blast
  from 1 2 g p start_demo show ?thesis by blast
qed

text \<open>
  The claim C2 as it was written fails: the engine's key handler starts the game on the
  space bar in the idle state, and pauses it while it is playing.
\<close>

theorem space_key_counterexample:
  "listening demoIdle \<and> gameState demoIdle = IDLE \<and>
   handleKeyDown ''Space'' demoIdle =
     Returns (demoPlaying\<lparr>effects := [Render, PreventDefault, Render]\<rparr>) \<and>
   gameState (demoPlaying\<lparr>effects := [Render, PreventDefault, Render]\<rparr>) = PLAYING \<and>
   gameLoop demoIdle = None \<and>
   gameLoop (demoPlaying\<lparr>effects := [Render, PreventDefault, Render]\<rparr>) = Some 1 \<and>
   gameState demoPlaying = PLAYING \<and>
   handleKeyDown ''Space'' demoPlaying =
     Returns (demoPlaying\<lparr>gameState := PAUSED, gameLoop := None, timers := [],
                effects := [Render, Render, PreventDefault]\<rparr>)"
  by (simp add: handleKeyDown_def preventDefault_def start_def reset_def spawnFood_def
      spawnFood_loop_hit demo_candidates gridSize_def initialSpeed_def render_def Let_def
      startTimer_def setInterval_def togglePause_def clearInterval_def demoIdle_def demoPlaying_def)

text \<open>
  C2, amended. The key handler of the engine reacts to the space bar itself, after
  \<open>preventDefault\<close> on the event: from Idle or GameOver it is \<open>start\<close>, which leaves
  the engine playing with the score 0 and the initial speed; from Playing it pauses and
  clears the timer, from Paused it resumes with a new timer at the current speed, and in
  these two cases the snake, the food, the score, the speed and both directions are
  what they were.
\<close>

theorem space_key_starts_pauses_resumes:
  "(gameState s = IDLE \<or> gameState s = GAME_OVER \<longrightarrow>
      handleKeyDown ''Space'' s = start (preventDefault s) \<and>
      (\<forall>s'. handleKeyDown ''Space'' s = Returns s' \<longrightarrow>
         gameState s' = PLAYING \<and> gameLoop s' = Some (nextTimer s) \<and>
         score s' = 0 \<and> speed s' = initialSpeed \<and>
         effects s' = effects s @ [PreventDefault, Render])) \<and>
   (gameState s = PLAYING \<longrightarrow>
      (\<exists>s'. handleKeyDown ''Space'' s = Returns s' \<and> gameState s' = PAUSED \<and>
         gameLoop s' = None \<and>
         timers s' = (case gameLoop s of None \<Rightarrow> timers s
                      | Some h \<Rightarrow> filter (\<lambda>t. fst t \<noteq> h) (timers s)) \<and>
         effects s' = effects s @ [PreventDefault] \<and>
         snake s' = snake s \<and> food s' = food s \<and> score s' = score s \<and> speed s' = speed s \<and>
         direction s' = direction s \<and> nextDirection s' = nextDirection s)) \<and>
   (gameState s = PAUSED \<longrightarrow>
      (\<exists>s'. handleKeyDown ''Space'' s = Returns s' \<and> gameState s' = PLAYING \<and>
         gameLoop s' = Some (nextTimer s) \<and> timers s' = timers s @ [(nextTimer s, speed s)] \<and>
         effects s' = effects s @ [PreventDefault] \<and>
         snake s' = snake s \<and> food s' = food s \<and> score s' = score s \<and> speed s' = speed s \<and>
         direction s' = direction s \<and> nextDirection s' = nextDirection s))"
proof (intro conjI impI)
  assume g: "gameState s = IDLE \<or> gameState s = GAME_OVER"
  then show h: "handleKeyDown ''Space'' s = start (preventDefault s)"
    by (auto simp: handleKeyDown_def Let_def preventDefault_def)
  have g': "gameState (preventDefault s) = IDLE \<or> gameState (preventDefault s) = GAME_OVER"
    using g by (simp add: preventDefault_def)
  show "\<forall>s'. handleKeyDown ''Space'' s = Returns s' \<longrightarrow>
         gameState s' = PLAYING \<and> gameLoop s' = Some (nextTimer s) \<and>
         score s' = 0 \<and> speed s' = initialSpeed \<and>
         effects s' = effects s @ [PreventDefault, Render]"
  proof (intro allI impI)
    fix s' assume "handleKeyDown ''Space'' s = Returns s'"
    with h have "start (preventDefault s) = Returns s'" by simp
    from start_Returns_fields [OF g' this]
    have "gameState s' = PLAYING \<and> gameLoop s' = Some (nextTimer (preventDefault s)) \<and>
         score s' = 0 \<and> speed s' = initialSpeed \<and>
         effects s' = effects (preventDefault s) @ [Render]" by blast
    then show "gameState s' = PLAYING \<and> gameLoop s' = Some (nextTimer s) \<and>
         score s' = 0 \<and> speed s' = initialSpeed \<and>
         effects s' = effects s @ [PreventDefault, Render]"
      by (simp add: preventDefault_def)
  qed
next
  assume "gameState s = PLAYING"
  then show "\<exists>s'. handleKeyDown ''Space'' s = Returns s' \<and> gameState s' = PAUSED \<and>
         gameLoop s' = None \<and>
         timers s' = (case gameLoop s of None \<Rightarrow> timers s
                      | Some h \<Rightarrow> filter (\<lambda>t. fst t \<noteq> h) (timers s)) \<and>
         effects s' = effects s @ [PreventDefault] \<and>
         snake s' = snake s \<and> food s' = food s \<and> score s' = score s \<and> speed s' = speed s \<and>
         direction s' = direction s \<and> nextDirection s' = nextDirection s"
    by (simp add: handleKeyDown_def Let_def preventDefault_def togglePause_def clearInterval_def
        split: option.splits)
next
  assume "gameState s = PAUSED"
  then show "\<exists>s'. handleKeyDown ''Space'' s = Returns s' \<and> gameState s' = PLAYING \<and>
         gameLoop s' = Some (nextTimer s) \<and> timers s' = timers s @ [(nextTimer s, speed s)] \<and>
         effects s' = effects s @ [PreventDefault] \<and>
         snake s' = snake s \<and> food s' = food s \<and> score s' = score s \<and> speed s' = speed s \<and>
         direction s' = direction s \<and> nextDirection s' = nextDirection s"
    by (simp add: handleKeyDown_def Let_def preventDefault_def togglePause_def startTimer_fields)
qed

text \<open>The space bar while the example run is playing, and in its idle state.\<close>

theorem space_key_witness:
  "gameState demoPlaying = PLAYING \<and>
   (\<exists>s'. handleKeyDown ''Space'' demoPlaying = Returns s' \<and> gameState s' = PAUSED \<and>
         gameLoop s' = None \<and> timers s' = [] \<and> snake s' = snake demoPlaying \<and>
         score s' = score demoPlaying \<and> nextDirection s' = nextDirection demoPlaying) \<and>
   gameState demoIdle = IDLE \<and>
   handleKeyDown ''Space'' demoIdle = start (preventDefault demoIdle)"
proof -
  have p: "gameState demoPlaying = PLAYING" "gameLoop demoPlaying = Some 1"
    "timers demoPlaying = [(1, 150)]" by (simp_all add: demoPlaying_def)
  have i: "gameState demoIdle = IDLE" by (simp add: demoIdle_def)
  from space_key_starts_pauses_resumes [of demoPlaying] p
  have 1: "\<exists>s'. handleKeyDown ''Space'' demoPlaying = Returns s' \<and> gameState s' = PAUSED \<and>
         gameLoop s' = None \<and> timers s' = [] \<and> snake s' = snake demoPlaying \<and>
         score s' = score demoPlaying \<and> nextDirection s' = nextDirection demoPlaying"
    by auto
  from space_key_starts_pauses_resumes [of demoIdle] i
  have 2: "handleKeyDown ''Space'' demoIdle = start (preventDefault demoIdle)" by blast
  from 1 2 p i show ?thesis by blast
qed

text \<open>
  The claim C9 as it was written fails in three places. A secret that is not the one
  registered logs in when it has the same \<open>simpleHash\<close>: alice registers with AaA and
  logs in with BBA. A user name that every object inherits from \<open>Object.prototype\<close>
  is taken for an existing user: in an empty storage, constructor is not registered and
  the answer is a wrong password. And \<open>login\<close> throws a TypeError when the stored item
  parses to a value without a \<open>users\<close> object: null, an empty object, 123.
\<close>

theorem login_wrong_secret_counterexample:
  "ascii ''BBA'' \<noteq> ascii ''AaA'' \<and>
   login demoNow None (ascii ''alice'') (ascii ''AaA'') =
     Answer (\<lparr>success = True, message = Registered, isNewUser = Some True\<rparr>, demoStoredAaA) \<and>
   map_answer fst (login demoNow demoStoredAaA (ascii ''alice'') (ascii ''BBA'')) =
     Answer \<lparr>success = True, message = LoginSucceeded, isNewUser = Some False\<rparr> \<and>
   getUser None (ascii ''constructor'') = Answer Native \<and>
   login demoNow None (ascii ''constructor'') (ascii ''abc'') =
     Answer (\<lparr>success = False, message = WrongPassword, isNewUser = None\<rparr>, None) \<and>
   login demoNow (Some JNull) (ascii ''alice'') (ascii ''abc'') = TypeError \<and>
   login demoNow (Some (JObject Map.empty)) (ascii ''alice'') (ascii ''abc'') = TypeError \<and>
   login demoNow (Some (JNumber 123)) (ascii ''alice'') (ascii ''abc'') = TypeError"
proof -
  have ne: "ascii ''BBA'' \<noteq> ascii ''AaA''" by (simp add: ascii_def)
  have l3: "3 \<le> length (ascii ''BBA'')" "3 \<le> length (ascii ''abc'')"
    by (simp_all add: ascii_def)
  have t: "trim (ascii ''alice'') \<noteq> []" "trim (ascii ''constructor'') \<noteq> []"
    by (simp_all add: trim_demo, simp_all add: ascii_def)
  have g: "getUser demoStoredAaA (trim (ascii ''alice'')) =
             Answer (Json (JObject [ascii ''password'' \<mapsto> JString (simpleHash (ascii ''AaA'')),
              ascii ''createdAt'' \<mapsto> JString demoNow,
              ascii ''lastLogin'' \<mapsto> JString demoNow,
              ascii ''highScore'' \<mapsto> JNumber 0,
              ascii ''gamesPlayed'' \<mapsto> JNumber 0,
              ascii ''totalScore'' \<mapsto> JNumber 0]))"
    by (simp add: trim_demo getUser_demo newUser_def)
  have h: "[ascii ''password'' \<mapsto> JString (simpleHash (ascii ''AaA'')),
              ascii ''createdAt'' \<mapsto> JString demoNow,
              ascii ''lastLogin'' \<mapsto> JString demoNow,
              ascii ''highScore'' \<mapsto> JNumber 0,
              ascii ''gamesPlayed'' \<mapsto> JNumber 0,
              ascii ''totalScore'' \<mapsto> JNumber (0::real)] (ascii ''password'') =
           Some (JString (simpleHash (ascii ''BBA'')))"
    by (simp add: hash_demo, simp add: ascii_def)
  from login_existing_right [OF t(1) l3(1) g h, of demoNow]
  have s: "map_answer fst (login demoNow demoStoredAaA (ascii ''alice'') (ascii ''BBA'')) =
     Answer \<lparr>success = True, message = LoginSucceeded, isNewUser = Some False\<rparr>"
    by auto
  have n: "getUser None (trim (ascii ''constructor'')) = Answer Native" "truthy Native"
    "\<forall>u. Native \<noteq> Json (JObject u)"
    by (simp_all add: trim_demo getUser_demo)
  note c = login_not_a_user [OF t(2) l3(2) n, of demoNow]
  from ne s c login_demo_register(2) login_demo_misshapen getUser_demo(2) show ?thesis by simp
qed

text \<open>
  C9, amended. A user name that is empty or only white space fails with the request for
  a user name, and a secret of fewer than 3 code units fails with the message that it is
  too short: \<open>login\<close> answers so whatever is stored, and the storage is unchanged.
  When the stored item is absent, does not parse, or is an object whose \<open>users\<close> is an
  object, \<open>login\<close> does not throw: it answers with a structured result and leaves an
  item of that shape. On such an item, for a trimmed user name that \<open>getUser\<close> does
  not find (no entry, and not an inherited name), \<open>login\<close> registers it with the hash
  of the secret and succeeds with \<open>isNewUser\<close> true. For a stored user, a secret whose
  hash is the stored password succeeds with \<open>isNewUser\<close> false, and in the user's
  record only the time of the last login changes; a secret whose hash is not the stored
  password fails with the wrong-password message and the storage is unchanged. In both
  successes the trimmed name becomes the current user.
\<close>

theorem login_returns_structured_results:
  "(trim username = [] \<longrightarrow>
      login now ls username pw =
        Answer (\<lparr>success = False, message = EnterUsername, isNewUser = None\<rparr>, ls)) \<and>
   (trim username \<noteq> [] \<and> length pw < 3 \<longrightarrow>
      login now ls username pw =
        Answer (\<lparr>success = False, message = PasswordTooShort, isNewUser = None\<rparr>, ls)) \<and>
   (wellShaped ls \<longrightarrow>
      (\<exists>res ls'. login now ls username pw = Answer (res, ls') \<and> wellShaped ls')) \<and>
   (wellShaped ls \<and> trim username \<noteq> [] \<and> 3 \<le> length pw \<and>
    getUser ls (trim username) = Answer (Json JNull) \<longrightarrow>
      (\<exists>ls'. login now ls username pw =
               Answer (\<lparr>success = True, message = Registered, isNewUser = Some True\<rparr>, ls') \<and>
             getUser ls' (trim username) = Answer (Json (newUser now pw)) \<and>
             getProperty (getData ls') (ascii ''currentUser'') =
               Answer (Json (JString (trim username))))) \<and>
   (\<forall>u. trim username \<noteq> [] \<and> 3 \<le> length pw \<and>
        getUser ls (trim username) = Answer (Json (JObject u)) \<and>
        u (ascii ''password'') = Some (JString (simpleHash pw)) \<longrightarrow>
      (\<exists>ls'. login now ls username pw =
               Answer (\<lparr>success = True, message = LoginSucceeded, isNewUser = Some False\<rparr>, ls') \<and>
             getUser ls' (trim username) =
               Answer (Json (reparse (JObject (u(ascii ''lastLogin'' \<mapsto> JString now))))) \<and>
             getProperty (getData ls') (ascii ''currentUser'') =
               Answer (Json (JString (trim username))))) \<and>
   (\<forall>u. trim username \<noteq> [] \<and> 3 \<le> length pw \<and>
        getUser ls (trim username) = Answer (Json (JObject u)) \<and>
        u (ascii ''password'') \<noteq> Some (JString (simpleHash pw)) \<longrightarrow>
      login now ls username pw =
        Answer (\<lparr>success = False, message = WrongPassword, isNewUser = None\<rparr>, ls))"
proof (intro conjI allI impI)
  show "login now ls username pw =
      Answer (\<lparr>success = False, message = EnterUsername, isNewUser = None\<rparr>, ls)"
    if "trim username = []" using that by (rule login_no_username)
  show "login now ls username pw =
      Answer (\<lparr>success = False, message = PasswordTooShort, isNewUser = None\<rparr>, ls)"
    if "trim username \<noteq> [] \<and> length pw < 3" using that by (simp add: login_short_password)
  show "\<exists>res ls'. login now ls username pw = Answer (res, ls') \<and> wellShaped ls'"
    if "wellShaped ls" using that by (rule login_answers)
next
  assume a: "wellShaped ls \<and> trim username \<noteq> [] \<and> 3 \<le> length pw \<and>
    getUser ls (trim username) = Answer (Json JNull)"
  then obtain g f where d: "getData ls = JObject g" "g (ascii ''users'') = Some (JObject f)"
    by (auto simp: wellShaped_iff)
  from a have v: "trim username \<noteq> []" "3 \<le> length pw"
    and n: "getUser ls (trim username) = Answer (Json JNull)" by simp_all
  from login_registers [OF d v n, of now]
  show "\<exists>ls'. login now ls username pw =
               Answer (\<lparr>success = True, message = Registered, isNewUser = Some True\<rparr>, ls') \<and>
             getUser ls' (trim username) = Answer (Json (newUser now pw)) \<and>
             getProperty (getData ls') (ascii ''currentUser'') =
               Answer (Json (JString (trim username)))" by blast
next
  fix u
  assume a: "trim username \<noteq> [] \<and> 3 \<le> length pw \<and>
        getUser ls (trim username) = Answer (Json (JObject u)) \<and>
        u (ascii ''password'') = Some (JString (simpleHash pw))"
  then have v: "trim username \<noteq> []" "3 \<le> length pw"
    and e: "getUser ls (trim username) = Answer (Json (JObject u))"
    and p: "u (ascii ''password'') = Some (JString (simpleHash pw))" by simp_all
  from login_existing_right [OF v e p, of now]
  show "\<exists>ls'. login now ls username pw =
               Answer (\<lparr>success = True, message = LoginSucceeded, isNewUser = Some False\<rparr>, ls') \<and>
             getUser ls' (trim username) =
               Answer (Json (reparse (JObject (u(ascii ''lastLogin'' \<mapsto> JString now))))) \<and>
             getProperty (getData ls') (ascii ''currentUser'') =
               Answer (Json (JString (trim username)))" by blast
next
  fix u
  assume a: "trim username \<noteq> [] \<and> 3 \<le> length pw \<and>
        getUser ls (trim username) = Answer (Json (JObject u)) \<and>
        u (ascii ''password'') \<noteq> Some (JString (simpleHash pw))"
  then have v: "trim username \<noteq> []" "3 \<le> length pw"
    and e: "getUser ls (trim username) = Answer (Json (JObject u))"
    and p: "u (ascii ''password'') \<noteq> Some (JString (simpleHash pw))" by simp_all
  from login_existing_wrong [OF v e p, of now]
  show "login now ls username pw =
        Answer (\<lparr>success = False, message = WrongPassword, isNewUser = None\<rparr>, ls)" .
qed


text \<open>The scenario of the specification: alice with the secret abc, twice, then abd.\<close>

theorem login_witness:
  "trim (ascii ''   '') = [] \<and>
   login demoNow None (ascii ''   '') (ascii ''abc'') =
     Answer (\<lparr>success = False, message = EnterUsername, isNewUser = None\<rparr>, None) \<and>
   trim (ascii '' alice '') = ascii ''alice'' \<and> length (ascii ''ab'') < 3 \<and>
   login demoNow None (ascii '' alice '') (ascii ''ab'') =
     Answer (\<lparr>success = False, message = PasswordTooShort, isNewUser = None\<rparr>, None) \<and>
   wellShaped None \<and> getUser None (ascii ''alice'') = Answer (Json JNull) \<and>
   login demoNow None (ascii '' alice '') (ascii ''abc'') =
     Answer (\<lparr>success = True, message = Registered, isNewUser = Some True\<rparr>, demoStored) \<and>
   getUser demoStored (ascii ''alice'') = Answer (Json (newUser demoNow (ascii ''abc''))) \<and>
   wellShaped demoStored \<and>
   map_answer fst (login demoNow demoStored (ascii ''alice'') (ascii ''abc'')) =
     Answer \<lparr>success = True, message = LoginSucceeded, isNewUser = Some False\<rparr> \<and>
   login demoNow demoStored (ascii ''alice'') (ascii ''abd'') =
     Answer (\<lparr>success = False, message = WrongPassword, isNewUser = None\<rparr>, demoStored)"
proof -
  let ?u = "[ascii ''password'' \<mapsto> JString (simpleHash (ascii ''abc'')),
              ascii ''createdAt'' \<mapsto> JString demoNow,
              ascii ''lastLogin'' \<mapsto> JString demoNow,
              ascii ''highScore'' \<mapsto> JNumber 0,
              ascii ''gamesPlayed'' \<mapsto> JNumber 0,
              ascii ''totalScore'' \<mapsto> JNumber (0::real)]"
  have t: "trim (ascii ''   '') = []" "trim (ascii '' alice '') = ascii ''alice''"
    "trim (ascii ''alice'') = ascii ''alice''" by (simp_all add: trim_demo)
  have n: "ascii ''alice'' \<noteq> []" "length (ascii ''ab'') < 3" "3 \<le> length (ascii ''abc'')"
    "3 \<le> length (ascii ''abd'')" by (simp_all add: ascii_def)
  have g: "getUser demoStored (ascii ''alice'') = Answer (Json (JObject ?u))"
    by (simp add: getUser_demo newUser_def)
  have p: "?u (ascii ''password'') = Some (JString (simpleHash (ascii ''abc'')))"
    "?u (ascii ''password'') \<noteq> Some (JString (simpleHash (ascii ''abd'')))"
    by (simp_all add: hash_demo, simp_all add: ascii_def)
  note T = login_returns_structured_results
  from T [of "ascii ''   ''" demoNow None "ascii ''abc''"] t
  have 1: "login demoNow None (ascii ''   '') (ascii ''abc'') =
     Answer (\<lparr>success = False, message = EnterUsername, isNewUser = None\<rparr>, None)" by blast
  from T [of "ascii '' alice ''" demoNow None "ascii ''ab''"] t n
  have 2: "login demoNow None (ascii '' alice '') (ascii ''ab'') =
     Answer (\<lparr>success = False, message = PasswordTooShort, isNewUser = None\<rparr>, None)" by simp
  from T [of "ascii ''alice''" demoNow demoStored "ascii ''abc''"] t n g p(1)
  have "\<exists>ls'. login demoNow demoStored (ascii ''alice'') (ascii ''abc'') =
               Answer (\<lparr>success = True, message = LoginSucceeded, isNewUser = Some False\<rparr>, ls')"
    by (metis (no_types, lifting))
  then have 3: "map_answer fst (login demoNow demoStored (ascii ''alice'') (ascii ''abc'')) =
     Answer \<lparr>success = True, message = LoginSucceeded, isNewUser = Some False\<rparr>" by auto
  from T [of "ascii ''alice''" demoNow demoStored "ascii ''abd''"] t n g p(2)
  have 4: "login demoNow demoStored (ascii ''alice'') (ascii ''abd'') =
     Answer (\<lparr>success = False, message = WrongPassword, isNewUser = None\<rparr>, demoStored)"
    by (metis (no_types, lifting))
  from 1 2 3 4 t n getUser_demo(1,3) wellShaped_None wellShaped_demo(1) login_demo_register(1)
  show ?thesis by simp
qed

end
